theory Spec2Isabelle
  imports Complex_Main
begin

section \<open>Data model (Constants.ts, Position.ts, PieceModel.ts, GameModel.ts)\<close>

text \<open>
  Board coordinates are JavaScript numbers that only ever hold integers (grid
  intersections), so they are modelled as \<open>int\<close>. The enums of Constants.ts are
  datatypes. \<open>BOARD_WIDTH\<close> and \<open>BOARD_HEIGHT\<close> are the largest file and rank index.
\<close>

definition BOARD_WIDTH :: int where "BOARD_WIDTH = 8"
definition BOARD_HEIGHT :: int where "BOARD_HEIGHT = 9"

datatype PieceType = KING | ADVISOR | ELEPHANT | HORSE | CHARIOT | CANNON | SOLDIER

datatype PieceColor = RED | BLACK

datatype GameState = INIT | PLAYING | OVER

datatype GameMode = PVP | PVE

datatype AIDifficulty = EASY | MEDIUM | HARD

record Position =
  pos_x :: int
  pos_y :: int

text \<open>\<open>Position.isValid\<close>\<close>

definition isValid :: "Position \<Rightarrow> bool" where
  "isValid p = (pos_x p \<ge> 0 \<and> pos_x p \<le> BOARD_WIDTH \<and> pos_y p \<ge> 0 \<and> pos_y p \<le> BOARD_HEIGHT)"

text \<open>
  \<open>PieceModel\<close>: the field \<open>type\<close> is \<open>ptype\<close> and the field \<open>id\<close> is \<open>pid\<close> here.
\<close>

record PieceModel =
  ptype :: PieceType
  color :: PieceColor
  position :: Position
  isAlive :: bool
  pid :: string

text \<open>
  \<open>GameModel\<close> holds its own history (a list of game models), so it is a recursive
  datatype with selectors. The boolean field \<open>isInCheck\<close> of the class is the selector
  \<open>inCheckFlag\<close>, since \<open>isInCheck\<close> is also the name of the rule function.
\<close>

datatype GameModel = GameModel
  (pieces: "PieceModel list")
  (currentTurn: PieceColor)
  (gameState: GameState)
  (winner: "PieceColor option")
  (inCheckFlag: bool)
  (selectedPieceId: "string option")
  (validMoves: "(int \<times> int) list")
  (history: "GameModel list")
  (gameMode: GameMode)
  (aiDifficulty: AIDifficulty)
  (aiPlayerColor: PieceColor)

text \<open>
  The constructors with their default arguments: \<open>new PieceModel(type, color, new
  Position(x, y), true, id)\<close> and \<open>new GameModel(pieces, currentTurn)\<close>.
\<close>

definition newPiece :: "PieceType \<Rightarrow> PieceColor \<Rightarrow> int \<Rightarrow> int \<Rightarrow> string \<Rightarrow> PieceModel" where
  "newPiece t c px py ident =
     \<lparr>ptype = t, color = c, position = \<lparr>pos_x = px, pos_y = py\<rparr>, isAlive = True, pid = ident\<rparr>"

definition newGameModel :: "PieceModel list \<Rightarrow> PieceColor \<Rightarrow> GameModel" where
  "newGameModel ps turn = GameModel ps turn INIT None False None [] [] PVP MEDIUM BLACK"

text \<open>Replacing the piece list of a model (the effect of mutating pieces of a clone).\<close>

definition withPieces :: "GameModel \<Rightarrow> PieceModel list \<Rightarrow> GameModel" where
  "withPieces gm ps =
     GameModel ps (currentTurn gm) (gameState gm) (winner gm) (inCheckFlag gm)
       (selectedPieceId gm) (validMoves gm) (history gm) (gameMode gm) (aiDifficulty gm)
       (aiPlayerColor gm)"

text \<open>\<open>Array.prototype.findIndex\<close>: the index of the first element satisfying the test.\<close>

fun findIndex :: "('a \<Rightarrow> bool) \<Rightarrow> 'a list \<Rightarrow> nat option" where
  "findIndex P [] = None"
| "findIndex P (a # as) =
     (if P a then Some 0 else (case findIndex P as of None \<Rightarrow> None | Some i \<Rightarrow> Some (Suc i)))"

text \<open>\<open>GameModel.getPieceAt\<close>: the first live piece standing on the square, if any.\<close>

definition occupies :: "int \<Rightarrow> int \<Rightarrow> PieceModel \<Rightarrow> bool" where
  "occupies tx ty piece = (isAlive piece \<and> pos_x (position piece) = tx \<and> pos_y (position piece) = ty)"

definition getPieceAt :: "GameModel \<Rightarrow> int \<Rightarrow> int \<Rightarrow> PieceModel option" where
  "getPieceAt gm tx ty = find (occupies tx ty) (pieces gm)"

text \<open>\<open>GameModel.getPiecesByColor\<close> and \<open>GameModel.getCurrentTurnPieces\<close>\<close>

definition getPiecesByColor :: "GameModel \<Rightarrow> PieceColor \<Rightarrow> PieceModel list" where
  "getPiecesByColor gm c = filter (\<lambda>piece. isAlive piece \<and> color piece = c) (pieces gm)"

definition getCurrentTurnPieces :: "GameModel \<Rightarrow> PieceModel list" where
  "getCurrentTurnPieces gm = getPiecesByColor gm (currentTurn gm)"

section \<open>Rule engine (Rules.ts)\<close>

text \<open>\<open>Rules.isInPalace\<close>\<close>

definition isInPalace :: "int \<Rightarrow> int \<Rightarrow> PieceColor \<Rightarrow> bool" where
  "isInPalace tx ty c =
     (tx \<in> set [3, 4, 5] \<and> ty \<in> set (if c = RED then [7, 8, 9] else [0, 1, 2]))"

text \<open>
  \<open>Rules.isPathClear\<close>: each \<open>for\<close> statement runs over the squares strictly between origin and
  target and returns false at the first occupied one.
\<close>

definition isPathClear :: "PieceModel \<Rightarrow> int \<Rightarrow> int \<Rightarrow> GameModel \<Rightarrow> bool" where
  "isPathClear piece targetX targetY gm =
     (let startX = pos_x (position piece); startY = pos_y (position piece) in
      if startY = targetY then
        list_all (\<lambda>sx. getPieceAt gm sx startY = None) [min startX targetX + 1 .. max startX targetX - 1]
      else if startX = targetX then
        list_all (\<lambda>sy. getPieceAt gm startX sy = None) [min startY targetY + 1 .. max startY targetY - 1]
      else True)"

text \<open>\<open>Rules.hasExactlyOneCannonMount\<close>: each \<open>for\<close> statement counts the occupied squares in between.\<close>

definition mountCount :: "PieceModel \<Rightarrow> int \<Rightarrow> int \<Rightarrow> GameModel \<Rightarrow> nat" where
  "mountCount piece targetX targetY gm =
     (let startX = pos_x (position piece); startY = pos_y (position piece) in
      if startY = targetY then
        length (filter (\<lambda>sx. getPieceAt gm sx startY \<noteq> None) [min startX targetX + 1 .. max startX targetX - 1])
      else if startX = targetX then
        length (filter (\<lambda>sy. getPieceAt gm startX sy \<noteq> None) [min startY targetY + 1 .. max startY targetY - 1])
      else 0)"

definition hasExactlyOneCannonMount :: "PieceModel \<Rightarrow> int \<Rightarrow> int \<Rightarrow> GameModel \<Rightarrow> bool" where
  "hasExactlyOneCannonMount piece targetX targetY gm = (mountCount piece targetX targetY gm = 1)"

text \<open>
  \<open>Rules.canMoveWithoutCheck\<close>: the movement rule of each piece type without the
  self-check test. The midpoints \<open>(a + b) / 2\<close> are only computed when \<open>a\<close> and \<open>b\<close>
  differ by exactly two, so the division is exact.
\<close>

definition canMoveWithoutCheck :: "PieceModel \<Rightarrow> int \<Rightarrow> int \<Rightarrow> GameModel \<Rightarrow> bool" where
  "canMoveWithoutCheck piece targetX targetY gm =
     (let px = pos_x (position piece); py = pos_y (position piece) in
      if \<not> isValid \<lparr>pos_x = targetX, pos_y = targetY\<rparr> then False
      else if (case getPieceAt gm targetX targetY of None \<Rightarrow> False
               | Some targetPiece \<Rightarrow> color targetPiece = color piece) then False
      else
        (case ptype piece of
           KING \<Rightarrow>
             isInPalace targetX targetY (color piece) \<and>
             ((\<bar>targetX - px\<bar> = 1 \<and> \<bar>targetY - py\<bar> = 0) \<or>
              (\<bar>targetX - px\<bar> = 0 \<and> \<bar>targetY - py\<bar> = 1))
         | ADVISOR \<Rightarrow>
             isInPalace targetX targetY (color piece) \<and>
             \<bar>targetX - px\<bar> = 1 \<and> \<bar>targetY - py\<bar> = 1
         | ELEPHANT \<Rightarrow>
             if (color piece = RED \<and> targetY < 5) \<or> (color piece = BLACK \<and> targetY > 4) then False
             else if \<bar>targetX - px\<bar> = 2 \<and> \<bar>targetY - py\<bar> = 2 then
               getPieceAt gm ((px + targetX) div 2) ((py + targetY) div 2) = None
             else False
         | HORSE \<Rightarrow>
             (let hdx = \<bar>targetX - px\<bar>; hdy = \<bar>targetY - py\<bar> in
              if (hdx = 1 \<and> hdy = 2) \<or> (hdx = 2 \<and> hdy = 1) then
                (if hdx = 1 then getPieceAt gm px ((py + targetY) div 2) = None
                 else getPieceAt gm ((px + targetX) div 2) py = None)
              else False)
         | CHARIOT \<Rightarrow>
             if px \<noteq> targetX \<and> py \<noteq> targetY then False
             else isPathClear piece targetX targetY gm
         | CANNON \<Rightarrow>
             if px \<noteq> targetX \<and> py \<noteq> targetY then False
             else if getPieceAt gm targetX targetY \<noteq> None then
               hasExactlyOneCannonMount piece targetX targetY gm
             else isPathClear piece targetX targetY gm
         | SOLDIER \<Rightarrow>
             if \<bar>targetX - px\<bar> + \<bar>targetY - py\<bar> \<noteq> 1 then False
             else if color piece = RED \<and> py > 4 \<and> targetY \<ge> py then False
             else if color piece = BLACK \<and> py < 5 \<and> targetY \<le> py then False
             else if color piece = RED \<and> targetY > py then False
             else if color piece = BLACK \<and> targetY < py then False
             else True))"

text \<open>
  The search of \<open>isInCheck\<close>, \<open>isKingFaceToFace\<close> and \<open>checkGameOver\<close> for a live
  general of one side.
\<close>

definition isLiveKing :: "PieceColor \<Rightarrow> PieceModel \<Rightarrow> bool" where
  "isLiveKing c piece = (isAlive piece \<and> ptype piece = KING \<and> color piece = c)"

text \<open>The test \<open>pieces.some(...)\<close> of \<open>checkGameOver\<close> for a live general of one side.\<close>

definition generalAlive :: "PieceColor \<Rightarrow> GameModel \<Rightarrow> bool" where
  "generalAlive c gm = list_ex (isLiveKing c) (pieces gm)"

text \<open>\<open>Rules.isKingFaceToFace\<close>\<close>

definition isKingFaceToFace :: "GameModel \<Rightarrow> bool" where
  "isKingFaceToFace gm =
     (case find (isLiveKing RED) (pieces gm) of
        None \<Rightarrow> False
      | Some redKing \<Rightarrow>
          (case find (isLiveKing BLACK) (pieces gm) of
             None \<Rightarrow> False
           | Some blackKing \<Rightarrow>
               if pos_x (position redKing) \<noteq> pos_x (position blackKing) then False
               else
                 list_all (\<lambda>sy. getPieceAt gm (pos_x (position redKing)) sy = None)
                   [min (pos_y (position redKing)) (pos_y (position blackKing)) + 1 ..
                    max (pos_y (position redKing)) (pos_y (position blackKing)) - 1]))"

text \<open>\<open>Rules.isInCheck\<close>\<close>

definition opponent :: "PieceColor \<Rightarrow> PieceColor" where
  "opponent c = (if c = RED then BLACK else RED)"

definition isInCheck :: "PieceColor \<Rightarrow> GameModel \<Rightarrow> bool" where
  "isInCheck c gm =
     (case find (isLiveKing c) (pieces gm) of
        None \<Rightarrow> False
      | Some king \<Rightarrow>
          if isKingFaceToFace gm then True
          else
            list_ex (\<lambda>piece. canMoveWithoutCheck piece (pos_x (position king)) (pos_y (position king)) gm)
              (getPiecesByColor gm (opponent c)))"

text \<open>
  The simulation inside \<open>Rules.wouldBeInCheckAfterMove\<close>: on a clone of the model, the
  first live piece on the target square (if any) is marked dead and the first piece
  carrying the mover's id is put on the target square. Both are mutations of objects
  of the cloned piece array, so they are updates at the index where \<open>find\<close> stops;
  \<open>None\<close> is the case where no piece carries the id.
\<close>

definition simulateMove :: "PieceModel \<Rightarrow> int \<Rightarrow> int \<Rightarrow> GameModel \<Rightarrow> GameModel option" where
  "simulateMove piece targetX targetY gm =
     (case findIndex (\<lambda>p. pid p = pid piece) (pieces gm) of
        None \<Rightarrow> None
      | Some i \<Rightarrow>
          (let ps1 = (case findIndex (occupies targetX targetY) (pieces gm) of
                        None \<Rightarrow> pieces gm
                      | Some j \<Rightarrow> (pieces gm)[j := (pieces gm ! j)\<lparr>isAlive := False\<rparr>]);
               ps2 = ps1[i := (ps1 ! i)\<lparr>position := \<lparr>pos_x = targetX, pos_y = targetY\<rparr>\<rparr>]
           in Some (withPieces gm ps2)))"

definition wouldBeInCheckAfterMove :: "PieceModel \<Rightarrow> int \<Rightarrow> int \<Rightarrow> GameModel \<Rightarrow> bool" where
  "wouldBeInCheckAfterMove piece targetX targetY gm =
     (case simulateMove piece targetX targetY gm of
        None \<Rightarrow> False
      | Some gameCopy \<Rightarrow> isInCheck (color piece) gameCopy)"

text \<open>The seven private movement rules of \<open>Rules\<close>.\<close>

definition canMoveKing :: "PieceModel \<Rightarrow> int \<Rightarrow> int \<Rightarrow> GameModel \<Rightarrow> bool" where
  "canMoveKing piece targetX targetY gm =
     (if \<not> isInPalace targetX targetY (color piece) then False
      else
        (let dx = \<bar>targetX - pos_x (position piece)\<bar>; dy = \<bar>targetY - pos_y (position piece)\<bar> in
         if (dx = 1 \<and> dy = 0) \<or> (dx = 0 \<and> dy = 1) then
           \<not> wouldBeInCheckAfterMove piece targetX targetY gm
         else False))"

definition canMoveAdvisor :: "PieceModel \<Rightarrow> int \<Rightarrow> int \<Rightarrow> GameModel \<Rightarrow> bool" where
  "canMoveAdvisor piece targetX targetY gm =
     (if \<not> isInPalace targetX targetY (color piece) then False
      else
        (let dx = \<bar>targetX - pos_x (position piece)\<bar>; dy = \<bar>targetY - pos_y (position piece)\<bar> in
         if dx = 1 \<and> dy = 1 then \<not> wouldBeInCheckAfterMove piece targetX targetY gm
         else False))"

definition canMoveElephant :: "PieceModel \<Rightarrow> int \<Rightarrow> int \<Rightarrow> GameModel \<Rightarrow> bool" where
  "canMoveElephant piece targetX targetY gm =
     (if color piece = RED \<and> targetY < 5 then False
      else if color piece = BLACK \<and> targetY > 4 then False
      else
        (let dx = \<bar>targetX - pos_x (position piece)\<bar>; dy = \<bar>targetY - pos_y (position piece)\<bar> in
         if dx = 2 \<and> dy = 2 then
           (if getPieceAt gm ((pos_x (position piece) + targetX) div 2)
                 ((pos_y (position piece) + targetY) div 2) = None
            then \<not> wouldBeInCheckAfterMove piece targetX targetY gm
            else False)
         else False))"

definition canMoveHorse :: "PieceModel \<Rightarrow> int \<Rightarrow> int \<Rightarrow> GameModel \<Rightarrow> bool" where
  "canMoveHorse piece targetX targetY gm =
     (let dx = \<bar>targetX - pos_x (position piece)\<bar>; dy = \<bar>targetY - pos_y (position piece)\<bar> in
      if (dx = 1 \<and> dy = 2) \<or> (dx = 2 \<and> dy = 1) then
        (if dx = 1 then
           (if getPieceAt gm (pos_x (position piece)) ((pos_y (position piece) + targetY) div 2) = None
            then \<not> wouldBeInCheckAfterMove piece targetX targetY gm
            else False)
         else
           (if getPieceAt gm ((pos_x (position piece) + targetX) div 2) (pos_y (position piece)) = None
            then \<not> wouldBeInCheckAfterMove piece targetX targetY gm
            else False))
      else False)"

definition canMoveChariot :: "PieceModel \<Rightarrow> int \<Rightarrow> int \<Rightarrow> GameModel \<Rightarrow> bool" where
  "canMoveChariot piece targetX targetY gm =
     (if pos_x (position piece) \<noteq> targetX \<and> pos_y (position piece) \<noteq> targetY then False
      else if \<not> isPathClear piece targetX targetY gm then False
      else \<not> wouldBeInCheckAfterMove piece targetX targetY gm)"

definition canMoveCannon :: "PieceModel \<Rightarrow> int \<Rightarrow> int \<Rightarrow> GameModel \<Rightarrow> bool" where
  "canMoveCannon piece targetX targetY gm =
     (if pos_x (position piece) \<noteq> targetX \<and> pos_y (position piece) \<noteq> targetY then False
      else if getPieceAt gm targetX targetY \<noteq> None then
        hasExactlyOneCannonMount piece targetX targetY gm
      else isPathClear piece targetX targetY gm)"

definition canMoveSoldier :: "PieceModel \<Rightarrow> int \<Rightarrow> int \<Rightarrow> GameModel \<Rightarrow> bool" where
  "canMoveSoldier piece targetX targetY gm =
     (let px = pos_x (position piece); py = pos_y (position piece);
          dx = \<bar>targetX - px\<bar>; dy = \<bar>targetY - py\<bar> in
      if dx + dy \<noteq> 1 then False
      else if color piece = RED \<and> py > 4 then
        (if targetY \<ge> py then False
         else \<not> wouldBeInCheckAfterMove piece targetX targetY gm)
      else if color piece = BLACK \<and> py < 5 then
        (if targetY \<le> py then False
         else \<not> wouldBeInCheckAfterMove piece targetX targetY gm)
      else if color piece = RED \<and> targetY > py then False
      else if color piece = BLACK \<and> targetY < py then False
      else \<not> wouldBeInCheckAfterMove piece targetX targetY gm)"

text \<open>\<open>Rules.canMove\<close>\<close>

definition canMove :: "PieceModel \<Rightarrow> int \<Rightarrow> int \<Rightarrow> GameModel \<Rightarrow> bool" where
  "canMove piece targetX targetY gm =
     (if \<not> isValid \<lparr>pos_x = targetX, pos_y = targetY\<rparr> then False
      else if (case getPieceAt gm targetX targetY of None \<Rightarrow> False
               | Some targetPiece \<Rightarrow> color targetPiece = color piece) then False
      else
        (case ptype piece of
           KING \<Rightarrow> canMoveKing piece targetX targetY gm
         | ADVISOR \<Rightarrow> canMoveAdvisor piece targetX targetY gm
         | ELEPHANT \<Rightarrow> canMoveElephant piece targetX targetY gm
         | HORSE \<Rightarrow> canMoveHorse piece targetX targetY gm
         | CHARIOT \<Rightarrow> canMoveChariot piece targetX targetY gm
         | CANNON \<Rightarrow> canMoveCannon piece targetX targetY gm
         | SOLDIER \<Rightarrow> canMoveSoldier piece targetX targetY gm))"

text \<open>
  \<open>Rules.getValidMoves\<close>: the outer loop runs over the files 0..8, the inner loop over
  the ranks 0..9, and each accepted square is pushed in that order.
\<close>

definition getValidMoves :: "PieceModel \<Rightarrow> GameModel \<Rightarrow> Position list" where
  "getValidMoves piece gm =
     concat (map (\<lambda>sx. map (\<lambda>sy. \<lparr>pos_x = sx, pos_y = sy\<rparr>)
                          (filter (\<lambda>sy. canMove piece sx sy gm) [0 .. 9]))
                 [0 .. 8])"

text \<open>
  The test \<open>hasValidMove\<close> of \<open>checkGameOver\<close>: some live piece of the side to move has
  a non-empty list of valid moves.
\<close>

definition hasValidMove :: "GameModel \<Rightarrow> bool" where
  "hasValidMove gm =
     list_ex (\<lambda>piece. length (getValidMoves piece gm) > 0) (getCurrentTurnPieces gm)"

text \<open>\<open>Rules.checkGameOver\<close>: \<open>None\<close> is the source's \<open>null\<close> (game still running).\<close>

definition checkGameOver :: "GameModel \<Rightarrow> PieceColor option" where
  "checkGameOver gm =
     (let redKingAlive = generalAlive RED gm;
          blackKingAlive = generalAlive BLACK gm in
      if \<not> redKingAlive then Some BLACK
      else if \<not> blackKingAlive then Some RED
      else if isKingFaceToFace gm then
        Some (if currentTurn gm = RED then RED else BLACK)
      else if \<not> hasValidMove gm then Some (if currentTurn gm = RED then BLACK else RED)
      else None)"

section \<open>Serialisation (PieceModel.toJSON / fromJSON, GameModel.toJSON / fromJSON)\<close>

text \<open>
  \<open>toJSON\<close> returns a plain object, not a string. The object of a piece has the five
  fields \<open>id\<close>, \<open>type\<close>, \<open>color\<close>, \<open>position\<close> (an object \<open>{x, y}\<close>, here a pair) and
  \<open>isAlive\<close>. The object of a game model has one field per field of the model; the four
  fields that \<open>GameModel.fromJSON\<close> reads under a guard \<open>if (data.f)\<close> are optional
  here, \<open>None\<close> being an absent field.
\<close>

record PieceJSON =
  json_id :: string
  json_type :: PieceType
  json_color :: PieceColor
  json_position :: "int \<times> int"
  json_isAlive :: bool

datatype GameJSON = GameJSON
  (json_pieces: "PieceJSON list")
  (json_currentTurn: PieceColor)
  (json_gameState: GameState)
  (json_winner: "PieceColor option")
  (json_isInCheck: bool)
  (json_selectedPieceId: "string option")
  (json_validMoves: "(int \<times> int) list")
  (json_history: "GameJSON list option")
  (json_gameMode: "GameMode option")
  (json_aiDifficulty: "AIDifficulty option")
  (json_aiPlayerColor: "PieceColor option")

definition PieceModel_toJSON :: "PieceModel \<Rightarrow> PieceJSON" where
  "PieceModel_toJSON p =
     \<lparr>json_id = pid p, json_type = ptype p, json_color = color p,
      json_position = (pos_x (position p), pos_y (position p)), json_isAlive = isAlive p\<rparr>"

definition PieceModel_fromJSON :: "PieceJSON \<Rightarrow> PieceModel" where
  "PieceModel_fromJSON d =
     \<lparr>ptype = json_type d, color = json_color d,
      position = \<lparr>pos_x = fst (json_position d), pos_y = snd (json_position d)\<rparr>,
      isAlive = json_isAlive d, pid = json_id d\<rparr>"

fun toJSON :: "GameModel \<Rightarrow> GameJSON" where
  "toJSON (GameModel ps turn st w chk sel vms hist gmode diff aic) =
     GameJSON (map PieceModel_toJSON ps) turn st w chk sel vms (Some (map toJSON hist))
       (Some gmode) (Some diff) (Some aic)"

text \<open>
  \<open>GameModel.fromJSON\<close>: the constructor leaves \<open>history = []\<close>, \<open>gameMode = PVP\<close>,
  \<open>aiDifficulty = MEDIUM\<close> and \<open>aiPlayerColor = BLACK\<close>, which the guarded assignments
  then overwrite when the field is present.
\<close>

fun fromJSON :: "GameJSON \<Rightarrow> GameModel" where
  "fromJSON (GameJSON jps turn st w chk sel vms jhist jgmode jdiff jaic) =
     GameModel (map PieceModel_fromJSON jps) turn st w chk sel vms
       (case jhist of None \<Rightarrow> [] | Some hs \<Rightarrow> map fromJSON hs)
       (case jgmode of None \<Rightarrow> PVP | Some m \<Rightarrow> m)
       (case jdiff of None \<Rightarrow> MEDIUM | Some d \<Rightarrow> d)
       (case jaic of None \<Rightarrow> BLACK | Some c \<Rightarrow> c)"

section \<open>Main-thread AI (AI.ts)\<close>

text \<open>A candidate move \<open>{ piece, target }\<close>.\<close>

record Move =
  move_piece :: PieceModel
  move_target :: Position

text \<open>
  Reading an array at an index: \<open>None\<close> is JavaScript's \<open>undefined\<close> for an index
  outside the array.
\<close>

definition at_index :: "'a list \<Rightarrow> int \<Rightarrow> 'a option" where
  "at_index xs i = (if 0 \<le> i \<and> i < int (length xs) then Some (xs ! nat i) else None)"

text \<open>\<open>AI.getAllValidMoves\<close>: the moves of the live pieces of the AI's colour.\<close>

definition getAllValidMoves :: "GameModel \<Rightarrow> Move list" where
  "getAllValidMoves gm =
     concat (map (\<lambda>p. map (\<lambda>t. \<lparr>move_piece = p, move_target = t\<rparr>) (getValidMoves p gm))
               (filter (\<lambda>p. isAlive p \<and> color p = aiPlayerColor gm) (pieces gm)))"

text \<open>
  \<open>AI.chooseRandomMove\<close>: the value drawn from \<open>Math.random()\<close>, a number \<open>r\<close> with
  \<open>0 \<le> r < 1\<close>, is an explicit argument.
\<close>

definition chooseRandomMove :: "real \<Rightarrow> Move list \<Rightarrow> Move option" where
  "chooseRandomMove r moves = at_index moves \<lfloor>r * real (length moves)\<rfloor>"

text \<open>\<open>AI.wouldBeCheck\<close>\<close>

definition wouldBeCheck :: "Move \<Rightarrow> GameModel \<Rightarrow> bool" where
  "wouldBeCheck m gm =
     (case simulateMove (move_piece m) (pos_x (move_target m)) (pos_y (move_target m)) gm of
        None \<Rightarrow> False
      | Some gameCopy \<Rightarrow> isInCheck (opponent (currentTurn gameCopy)) gameCopy)"

text \<open>\<open>AI.chooseMediumMove\<close>\<close>

definition chooseMediumMove :: "real \<Rightarrow> Move list \<Rightarrow> GameModel \<Rightarrow> Move option" where
  "chooseMediumMove r moves gm =
     (let checkMoves = filter (\<lambda>m. wouldBeCheck m gm) moves in
      if length checkMoves > 0 then chooseRandomMove r checkMoves
      else
        (let captureMoves =
               filter (\<lambda>m. getPieceAt gm (pos_x (move_target m)) (pos_y (move_target m)) \<noteq> None) moves in
         if length captureMoves > 0 then chooseRandomMove r captureMoves
         else chooseRandomMove r moves))"

text \<open>\<open>AI.getPieceValue\<close>\<close>

definition getPieceValue :: "PieceModel \<Rightarrow> int" where
  "getPieceValue p =
     (case ptype p of KING \<Rightarrow> 1000 | ADVISOR \<Rightarrow> 100 | ELEPHANT \<Rightarrow> 150 | HORSE \<Rightarrow> 300
      | CHARIOT \<Rightarrow> 500 | CANNON \<Rightarrow> 250 | SOLDIER \<Rightarrow> 50)"

text \<open>
  \<open>AI.evaluateMove\<close>, with the weights of \<open>AI_CONFIG.EVALUATION_WEIGHTS\<close>: 100 per
  point of captured material, 200 for giving check, 10 per legal move of the AI's side
  after the move.
\<close>

definition evaluateMove :: "Move \<Rightarrow> GameModel \<Rightarrow> int" where
  "evaluateMove m gm =
     (case simulateMove (move_piece m) (pos_x (move_target m)) (pos_y (move_target m)) gm of
        None \<Rightarrow> 0
      | Some gameCopy \<Rightarrow>
          (case getPieceAt gm (pos_x (move_target m)) (pos_y (move_target m)) of
             None \<Rightarrow> 0
           | Some targetPiece \<Rightarrow> getPieceValue targetPiece * 100)
          + (if isInCheck (opponent (currentTurn gameCopy)) gameCopy then 200 else 0)
          + sum_list (map (\<lambda>p. int (length (getValidMoves p gameCopy)))
                        (getPiecesByColor gameCopy (aiPlayerColor gm))) * 10)"

text \<open>
  \<open>AI.chooseHardMove\<close>: \<open>bestMove\<close> starts as \<open>validMoves[0]\<close> and \<open>bestScore\<close> as
  \<open>-Infinity\<close> (here \<open>None\<close>); a move replaces the best one when its score is strictly
  greater.
\<close>

definition hardStep :: "GameModel \<Rightarrow> Move \<Rightarrow> Move option \<times> int option \<Rightarrow> Move option \<times> int option" where
  "hardStep gm m best =
     (let score = evaluateMove m gm in
      if (case snd best of None \<Rightarrow> True | Some bestScore \<Rightarrow> score > bestScore)
      then (Some m, Some score) else best)"

definition chooseHardMove :: "Move list \<Rightarrow> GameModel \<Rightarrow> Move option" where
  "chooseHardMove moves gm = fst (fold (hardStep gm) moves (at_index moves 0, None))"

text \<open>
  \<open>AI.makeMove\<close>: \<open>None\<close> is the source's \<open>null\<close>. The pause before returning has no
  effect on the result.
\<close>

definition makeMove :: "real \<Rightarrow> GameModel \<Rightarrow> Move option" where
  "makeMove r gm =
     (if currentTurn gm \<noteq> aiPlayerColor gm then None
      else
        (let moves = getAllValidMoves gm in
         if length moves = 0 then None
         else
           (case aiDifficulty gm of
              EASY \<Rightarrow> chooseRandomMove r moves
            | MEDIUM \<Rightarrow> chooseMediumMove r moves gm
            | HARD \<Rightarrow> chooseHardMove moves gm)))"

section \<open>Worker AI: position tables (AIWorker.ts)\<close>

text \<open>The table \<open>positionValues\<close> of \<open>AIWorker.getPositionValue\<close>: nine rows of nine entries per piece type.\<close>

definition positionValues :: "PieceType \<Rightarrow> int list list" where
  "positionValues t =
     (case t of
        KING \<Rightarrow>
          [[0, 0, 0, 0, 0, 0, 0, 0, 0],
           [0, 0, 0, 0, 0, 0, 0, 0, 0],
           [0, 0, 0, 0, 0, 0, 0, 0, 0],
           [0, 0, 0, 0, 0, 0, 0, 0, 0],
           [0, 0, 0, 0, 0, 0, 0, 0, 0],
           [0, 0, 0, 10, 10, 10, 0, 0, 0],
           [0, 0, 0, 10, 20, 10, 0, 0, 0],
           [0, 0, 0, 10, 10, 10, 0, 0, 0],
           [0, 0, 0, 0, 0, 0, 0, 0, 0]]
      | ADVISOR \<Rightarrow>
          [[0, 0, 0, 0, 0, 0, 0, 0, 0],
           [0, 0, 0, 0, 0, 0, 0, 0, 0],
           [0, 0, 0, 0, 0, 0, 0, 0, 0],
           [0, 0, 0, 0, 0, 0, 0, 0, 0],
           [0, 0, 0, 0, 0, 0, 0, 0, 0],
           [0, 0, 0, 5, 0, 5, 0, 0, 0],
           [0, 0, 0, 0, 15, 0, 0, 0, 0],
           [0, 0, 0, 5, 0, 5, 0, 0, 0],
           [0, 0, 0, 0, 0, 0, 0, 0, 0]]
      | ELEPHANT \<Rightarrow>
          [[0, 0, 0, 0, 0, 0, 0, 0, 0],
           [0, 0, 0, 0, 0, 0, 0, 0, 0],
           [0, 0, 0, 0, 0, 0, 0, 0, 0],
           [0, 0, 0, 0, 0, 0, 0, 0, 0],
           [0, 0, 0, 0, 0, 0, 0, 0, 0],
           [0, 0, 10, 0, 0, 0, 10, 0, 0],
           [0, 0, 0, 0, 0, 0, 0, 0, 0],
           [0, 20, 0, 0, 0, 0, 0, 20, 0],
           [0, 0, 0, 0, 30, 0, 0, 0, 0]]
      | HORSE \<Rightarrow>
          [[0, 5, 10, 15, 20, 15, 10, 5, 0],
           [5, 15, 25, 30, 35, 30, 25, 15, 5],
           [10, 25, 35, 40, 45, 40, 35, 25, 10],
           [15, 30, 40, 45, 50, 45, 40, 30, 15],
           [20, 35, 45, 50, 55, 50, 45, 35, 20],
           [15, 30, 40, 45, 50, 45, 40, 30, 15],
           [10, 25, 35, 40, 45, 40, 35, 25, 10],
           [5, 15, 25, 30, 35, 30, 25, 15, 5],
           [0, 5, 10, 15, 20, 15, 10, 5, 0]]
      | CHARIOT \<Rightarrow>
          [[5, 5, 5, 5, 5, 5, 5, 5, 5],
           [5, 10, 10, 10, 10, 10, 10, 10, 5],
           [5, 10, 15, 15, 15, 15, 15, 10, 5],
           [5, 10, 15, 20, 20, 20, 15, 10, 5],
           [5, 10, 15, 20, 25, 20, 15, 10, 5],
           [5, 10, 15, 20, 20, 20, 15, 10, 5],
           [5, 10, 15, 15, 15, 15, 15, 10, 5],
           [5, 10, 10, 10, 10, 10, 10, 10, 5],
           [5, 5, 5, 5, 5, 5, 5, 5, 5]]
      | CANNON \<Rightarrow>
          [[2, 2, 2, 2, 2, 2, 2, 2, 2],
           [2, 5, 5, 5, 5, 5, 5, 5, 2],
           [2, 5, 10, 10, 10, 10, 10, 5, 2],
           [2, 5, 10, 15, 15, 15, 10, 5, 2],
           [2, 5, 10, 15, 20, 15, 10, 5, 2],
           [2, 5, 10, 15, 15, 15, 10, 5, 2],
           [2, 5, 10, 10, 10, 10, 10, 5, 2],
           [2, 5, 5, 5, 5, 5, 5, 5, 2],
           [2, 2, 2, 2, 2, 2, 2, 2, 2]]
      | SOLDIER \<Rightarrow>
          [[0, 0, 0, 0, 0, 0, 0, 0, 0],
           [10, 10, 10, 10, 10, 10, 10, 10, 10],
           [15, 15, 15, 15, 15, 15, 15, 15, 15],
           [20, 20, 20, 20, 20, 20, 20, 20, 20],
           [30, 30, 30, 30, 30, 30, 30, 30, 30],
           [50, 50, 50, 50, 50, 50, 50, 50, 50],
           [70, 70, 70, 70, 70, 70, 70, 70, 70],
           [100, 100, 100, 100, 100, 100, 100, 100, 100],
           [200, 200, 200, 200, 200, 200, 200, 200, 200]])"

text \<open>
  \<open>AIWorker.getPositionValue\<close>: the row index is the rank for red and \<open>8 - rank\<close> for
  black; a missing row or entry gives 0.
\<close>

definition getPositionValue :: "PieceModel \<Rightarrow> int" where
  "getPositionValue p =
     (let row_y = (if color p = RED then pos_y (position p) else 8 - pos_y (position p)) in
      case at_index (positionValues (ptype p)) row_y of
        None \<Rightarrow> 0
      | Some row \<Rightarrow> (case at_index row (pos_x (position p)) of None \<Rightarrow> 0 | Some v \<Rightarrow> v))"

section \<open>Worker AI: search (AIWorker.ts)\<close>

text \<open>
  Scores are JavaScript numbers. Every score the evaluation produces is an integer (the
  only division, by two in \<open>getSafetyValue\<close>, is of a difference of piece values, all
  multiples of 50), and the search adds \<open>-Infinity\<close> and \<open>Infinity\<close>.
\<close>

datatype score = NegInfinity | Finite int | PosInfinity

text \<open>The comparison \<open>a < b\<close>, \<open>Math.max\<close>, \<open>Math.min\<close> and \<open>a <= b\<close> on scores.\<close>

fun score_less :: "score \<Rightarrow> score \<Rightarrow> bool" where
  "score_less NegInfinity NegInfinity = False"
| "score_less NegInfinity _ = True"
| "score_less (Finite a) (Finite b) = (a < b)"
| "score_less (Finite a) PosInfinity = True"
| "score_less (Finite a) NegInfinity = False"
| "score_less PosInfinity _ = False"

definition score_max :: "score \<Rightarrow> score \<Rightarrow> score" where
  "score_max a b = (if score_less a b then b else a)"

definition score_min :: "score \<Rightarrow> score \<Rightarrow> score" where
  "score_min a b = (if score_less b a then b else a)"

definition score_le :: "score \<Rightarrow> score \<Rightarrow> bool" where
  "score_le a b = (\<not> score_less b a)"

text \<open>The test \<open>Math.abs(score) > 10000\<close>.\<close>

fun exceeds_win_threshold :: "score \<Rightarrow> bool" where
  "exceeds_win_threshold (Finite v) = (\<bar>v\<bar> > 10000)"
| "exceeds_win_threshold _ = True"

text \<open>
  The values returned by successive calls of \<open>Math.random()\<close> inside the comparator of
  \<open>sortMoves\<close>, and by successive calls of \<open>Date.now()\<close>, are explicit inputs: an
  infinite sequence each, from which every call takes the head.
\<close>

type_synonym draws = "nat \<Rightarrow> real"
type_synonym clock = "nat \<Rightarrow> int"

definition rest :: "(nat \<Rightarrow> 'a) \<Rightarrow> (nat \<Rightarrow> 'a)" where
  "rest s = (\<lambda>n. s (Suc n))"

text \<open>
  The comparator of \<open>AIWorker.sortMoves\<close>: captures first, then checking moves, and
  \<open>Math.random() - 0.5\<close> between moves of the same class.
\<close>

definition compareMoves :: "GameModel \<Rightarrow> draws \<Rightarrow> Move \<Rightarrow> Move \<Rightarrow> real \<times> draws" where
  "compareMoves gm rnd a b =
     (let aCaptures = (if getPieceAt gm (pos_x (move_target a)) (pos_y (move_target a)) \<noteq> None then 1 else 0 :: int);
          bCaptures = (if getPieceAt gm (pos_x (move_target b)) (pos_y (move_target b)) \<noteq> None then 1 else 0 :: int) in
      if aCaptures \<noteq> bCaptures then (real_of_int (bCaptures - aCaptures), rnd)
      else
        (let aChecks = (if wouldBeCheck a gm then 1 else 0 :: int);
             bChecks = (if wouldBeCheck b gm then 1 else 0 :: int) in
         if aChecks \<noteq> bChecks then (real_of_int (bChecks - aChecks), rnd)
         else (rnd 0 - 1/2, rest rnd)))"

text \<open>
  \<open>moves.sort(comparator)\<close> is \<open>Array.prototype.sort\<close>, which belongs to the JavaScript
  engine and not to the repository. Under a comparator that answers at random, the
  order of the result and the number of comparator calls are the engine's own. The
  engine's sort is therefore a parameter \<open>srt\<close> of \<open>sortMoves\<close> and of the search: it
  takes the comparator, the random values still to come and the array, and returns the
  sorted array and the random values left.
\<close>

type_synonym 'a comparator = "draws \<Rightarrow> 'a \<Rightarrow> 'a \<Rightarrow> real \<times> draws"
type_synonym 'a engine_sort = "'a comparator \<Rightarrow> draws \<Rightarrow> 'a list \<Rightarrow> 'a list \<times> draws"

text \<open>\<open>AIWorker.sortMoves\<close>\<close>

definition sortMoves :: "Move engine_sort \<Rightarrow> draws \<Rightarrow> Move list \<Rightarrow> GameModel \<Rightarrow> Move list \<times> draws" where
  "sortMoves srt rnd moves gm = srt (compareMoves gm) rnd moves"

text \<open>
  \<open>scoredMoves.sort((a, b) => b.score - a.score)\<close>: a stable sort by descending score
  (the difference of two \<open>-Infinity\<close> is \<open>NaN\<close>, which \<open>sort\<close> reads as equal).
\<close>

fun insertScored :: "'a \<times> score \<Rightarrow> ('a \<times> score) list \<Rightarrow> ('a \<times> score) list" where
  "insertScored v [] = [v]"
| "insertScored v (w # ws) =
     (if score_less (snd w) (snd v) then v # w # ws else w # insertScored v ws)"

definition sortByScore :: "('a \<times> score) list \<Rightarrow> ('a \<times> score) list" where
  "sortByScore xs = foldl (\<lambda>placed v. insertScored v placed) [] xs"

text \<open>\<open>AIWorker.executeMove\<close>, on a clone of the model.\<close>

definition executeMove :: "Move \<Rightarrow> GameModel \<Rightarrow> GameModel" where
  "executeMove m gm =
     (case findIndex (\<lambda>p. pid p = pid (move_piece m)) (pieces gm) of
        None \<Rightarrow> gm
      | Some i \<Rightarrow>
          (let ps1 = (case findIndex (occupies (pos_x (move_target m)) (pos_y (move_target m))) (pieces gm) of
                        None \<Rightarrow> pieces gm
                      | Some j \<Rightarrow>
                          if color (pieces gm ! j) \<noteq> color (pieces gm ! i)
                          then (pieces gm)[j := (pieces gm ! j)\<lparr>isAlive := False\<rparr>]
                          else pieces gm);
               ps2 = ps1[i := (ps1 ! i)\<lparr>position := move_target m\<rparr>]
           in withPieces gm ps2))"

text \<open>\<open>GameModel.switchTurn\<close>\<close>

definition switchTurn :: "GameModel \<Rightarrow> GameModel" where
  "switchTurn gm =
     GameModel (pieces gm) (if currentTurn gm = RED then BLACK else RED) (gameState gm) (winner gm)
       (inCheckFlag gm) (selectedPieceId gm) (validMoves gm) (history gm) (gameMode gm)
       (aiDifficulty gm) (aiPlayerColor gm)"

text \<open>
  \<open>AIWorker.getAllValidMovesForCurrentPlayer\<close>; \<open>AIWorker.getAllValidMoves\<close> has the
  same body.
\<close>

definition getAllValidMovesForCurrentPlayer :: "GameModel \<Rightarrow> Move list" where
  "getAllValidMovesForCurrentPlayer gm =
     concat (map (\<lambda>p. map (\<lambda>t. \<lparr>move_piece = p, move_target = t\<rparr>) (getValidMoves p gm))
               (filter (\<lambda>p. isAlive p \<and> color p = currentTurn gm) (pieces gm)))"

text \<open>\<open>AIWorker.getSafetyValue\<close>\<close>

definition getSafetyValue :: "PieceModel \<Rightarrow> GameModel \<Rightarrow> int" where
  "getSafetyValue piece gm =
     sum_list (map (\<lambda>opponentPiece.
         if list_ex (\<lambda>mv. pos_x mv = pos_x (position piece) \<and> pos_y mv = pos_y (position piece))
              (getValidMoves opponentPiece gm)
            \<and> getPieceValue opponentPiece < getPieceValue piece
         then - ((getPieceValue piece - getPieceValue opponentPiece) div 2)
         else 0)
       (getPiecesByColor gm (opponent (color piece))))"

text \<open>\<open>AIWorker.evaluateControlArea\<close>\<close>

definition evaluateControlArea :: "GameModel \<Rightarrow> PieceColor \<Rightarrow> int" where
  "evaluateControlArea gm c =
     sum_list (map (\<lambda>piece.
         (let moves = getValidMoves piece gm in
          int (length moves) +
          2 * int (length (filter (\<lambda>mv. pos_x mv \<ge> 3 \<and> pos_x mv \<le> 5 \<and> pos_y mv \<ge> 3 \<and> pos_y mv \<le> 5) moves))))
       (getPiecesByColor gm c))"

text \<open>\<open>AIWorker.evaluateKingSafety\<close>\<close>

definition evaluateKingSafety :: "GameModel \<Rightarrow> PieceColor \<Rightarrow> int" where
  "evaluateKingSafety gm c =
     (case find (\<lambda>piece. ptype piece = KING \<and> color piece = c \<and> isAlive piece) (pieces gm) of
        None \<Rightarrow> - 1000
      | Some king \<Rightarrow>
          (let kx = pos_x (position king); ky = pos_y (position king);
               kingArea = [(kx - 1, ky), (kx + 1, ky), (kx, ky - 1), (kx, ky + 1)];
               attackedSquares =
                 sum_list (map (\<lambda>(sx, sy).
                     if sx \<ge> 0 \<and> sx \<le> 8 \<and> sy \<ge> 0 \<and> sy \<le> 8 then
                       int (length (filter (\<lambda>piece. list_ex (\<lambda>mv. pos_x mv = sx \<and> pos_y mv = sy)
                                                        (getValidMoves piece gm))
                                      (getPiecesByColor gm (opponent c))))
                     else 0) kingArea)
           in (if isInCheck c gm then - 100 else 0) - attackedSquares * 20))"

text \<open>\<open>AIWorker.evaluatePosition\<close>\<close>

definition evaluatePosition :: "GameModel \<Rightarrow> PieceColor \<Rightarrow> int" where
  "evaluatePosition gm aiColor =
     (let opponentColor = opponent aiColor;
          aiPieces = getPiecesByColor gm aiColor;
          opponentPieces = getPiecesByColor gm opponentColor;
          worth = (\<lambda>piece. getPieceValue piece + getPositionValue piece + getSafetyValue piece gm);
          mobility = (\<lambda>ps. sum_list (map (\<lambda>piece. int (length (getValidMoves piece gm))) ps))
      in sum_list (map worth aiPieces) - sum_list (map worth opponentPieces)
         + (if isInCheck opponentColor gm then 500 else 0)
         - (if isInCheck aiColor gm then 500 else 0)
         + (mobility aiPieces - mobility opponentPieces) * 10
         + (evaluateControlArea gm aiColor - evaluateControlArea gm opponentColor) * 20
         + evaluateKingSafety gm aiColor * 300
         - evaluateKingSafety gm opponentColor * 300)"

text \<open>
  \<open>AIWorker.minimax\<close>: \<open>maxLoop\<close> and \<open>minLoop\<close> are the two \<open>for\<close> statements over the
  sorted moves, with their running \<open>maxScore\<close>/\<open>minScore\<close>, \<open>alpha\<close> and \<open>beta\<close>; the
  remaining depth is a natural number.
\<close>

function minimax :: "Move engine_sort \<Rightarrow> draws \<Rightarrow> GameModel \<Rightarrow> nat \<Rightarrow> score \<Rightarrow> score \<Rightarrow> bool \<Rightarrow> PieceColor \<Rightarrow> score \<times> draws"
  and maxLoop :: "Move engine_sort \<Rightarrow> draws \<Rightarrow> GameModel \<Rightarrow> nat \<Rightarrow> Move list \<Rightarrow> score \<Rightarrow> score \<Rightarrow> score \<Rightarrow> PieceColor \<Rightarrow> score \<times> draws"
  and minLoop :: "Move engine_sort \<Rightarrow> draws \<Rightarrow> GameModel \<Rightarrow> nat \<Rightarrow> Move list \<Rightarrow> score \<Rightarrow> score \<Rightarrow> score \<Rightarrow> PieceColor \<Rightarrow> score \<times> draws"
where
  "minimax srt rnd gm 0 alpha beta isMaximizingPlayer aiColor = (Finite (evaluatePosition gm aiColor), rnd)"
| "minimax srt rnd gm (Suc d) alpha beta isMaximizingPlayer aiColor =
     (let moves = getAllValidMovesForCurrentPlayer gm in
      if length moves = 0 then (Finite (evaluatePosition gm aiColor), rnd)
      else
        (case sortMoves srt rnd moves gm of
           (sortedMoves, rnd1) \<Rightarrow>
             if isMaximizingPlayer then maxLoop srt rnd1 gm d sortedMoves NegInfinity alpha beta aiColor
             else minLoop srt rnd1 gm d sortedMoves PosInfinity alpha beta aiColor))"
| "maxLoop srt rnd gm d [] maxScore alpha beta aiColor = (maxScore, rnd)"
| "maxLoop srt rnd gm d (m # ms) maxScore alpha beta aiColor =
     (case minimax srt rnd (switchTurn (executeMove m gm)) d alpha beta False aiColor of
        (score, rnd1) \<Rightarrow>
          (let maxScore1 = score_max maxScore score; alpha1 = score_max alpha score in
           if score_le beta alpha1 then (maxScore1, rnd1)
           else maxLoop srt rnd1 gm d ms maxScore1 alpha1 beta aiColor))"
| "minLoop srt rnd gm d [] minScore alpha beta aiColor = (minScore, rnd)"
| "minLoop srt rnd gm d (m # ms) minScore alpha beta aiColor =
     (case minimax srt rnd (switchTurn (executeMove m gm)) d alpha beta True aiColor of
        (score, rnd1) \<Rightarrow>
          (let minScore1 = score_min minScore score; beta1 = score_min beta score in
           if score_le beta1 alpha then (minScore1, rnd1)
           else minLoop srt rnd1 gm d ms minScore1 alpha beta1 aiColor))"
  by pat_completeness auto
termination
  by (relation "measures [
        (\<lambda>v. case v of Inl (srt, rnd, gm, d, r) \<Rightarrow> d | Inr (Inl (srt, rnd, gm, d, r)) \<Rightarrow> d
                      | Inr (Inr (srt, rnd, gm, d, r)) \<Rightarrow> d),
        (\<lambda>v. case v of Inl r \<Rightarrow> 0 | Inr r \<Rightarrow> 1),
        (\<lambda>v. case v of Inl r \<Rightarrow> 0 | Inr (Inl (srt, rnd, gm, d, ms, r)) \<Rightarrow> length ms
                      | Inr (Inr (srt, rnd, gm, d, ms, r)) \<Rightarrow> length ms)]")
    auto

text \<open>
  \<open>AIWorker.iterativeDeepening\<close>. \<open>evaluateMoves\<close> is the \<open>forEach\<close> over the scored
  moves at one depth (each callback reads the clock and leaves the move's score as it is
  when the time is up); \<open>deepen\<close> is the loop over the depths 1 to 6. Reading
  \<open>scoredMoves[0].score\<close> of an empty array throws a \<open>TypeError\<close>: that is \<open>None\<close>.
\<close>

definition timeLimit :: int where "timeLimit = 1500"

fun evaluateMoves :: "Move engine_sort \<Rightarrow> GameModel \<Rightarrow> nat \<Rightarrow> PieceColor \<Rightarrow> int \<Rightarrow> (Move \<times> score) list \<Rightarrow> draws \<Rightarrow> clock
    \<Rightarrow> (Move \<times> score) list \<times> draws \<times> clock" where
  "evaluateMoves srt gm d aiColor startTime [] rnd clk = ([], rnd, clk)"
| "evaluateMoves srt gm d aiColor startTime (scoredMove # others) rnd clk =
     (if clk 0 - startTime > timeLimit then
        (case evaluateMoves srt gm d aiColor startTime others rnd (rest clk) of
           (others1, rnd1, clk1) \<Rightarrow> (scoredMove # others1, rnd1, clk1))
      else
        (case minimax srt rnd (switchTurn (executeMove (fst scoredMove) gm)) d NegInfinity PosInfinity False aiColor of
           (score, rnd1) \<Rightarrow>
             (case evaluateMoves srt gm d aiColor startTime others rnd1 (rest clk) of
                (others1, rnd2, clk1) \<Rightarrow> ((fst scoredMove, score) # others1, rnd2, clk1))))"

fun deepen :: "Move engine_sort \<Rightarrow> GameModel \<Rightarrow> PieceColor \<Rightarrow> int \<Rightarrow> nat list \<Rightarrow> (Move \<times> score) list \<Rightarrow> draws \<Rightarrow> clock
    \<Rightarrow> (Move \<times> score) list option" where
  "deepen srt gm aiColor startTime [] scoredMoves rnd clk = Some scoredMoves"
| "deepen srt gm aiColor startTime (depth # depths) scoredMoves rnd clk =
     (if clk 0 - startTime > timeLimit then Some scoredMoves
      else
        (case evaluateMoves srt gm (depth - 1) aiColor startTime scoredMoves rnd (rest clk) of
           (scored1, rnd1, clk1) \<Rightarrow>
             (case sortByScore scored1 of
                [] \<Rightarrow> None
              | best # others \<Rightarrow>
                  if exceeds_win_threshold (snd best) then Some (best # others)
                  else deepen srt gm aiColor startTime depths (best # others) rnd1 clk1)))"

text \<open>
  \<open>AIWorker.selectMoveWithRandomness\<close>: \<open>p\<close> is the probability of the random pick,
  which the source fixes at 0.05, and \<open>pick\<close> holds the values of the two calls of
  \<open>Math.random()\<close> (the second is only made when the first is below \<open>p\<close>).
\<close>

definition selectMoveWithRandomness :: "real \<Rightarrow> real \<times> real \<Rightarrow> (Move \<times> score) list \<Rightarrow> Move option" where
  "selectMoveWithRandomness p pick scoredMoves =
     (let sorted = sortByScore scoredMoves;
          candidates = take (min 5 (length sorted)) sorted in
      if fst pick < p \<and> length candidates > 1 then
        map_option fst (at_index candidates \<lfloor>snd pick * real (length candidates)\<rfloor>)
      else map_option fst (at_index sorted 0))"

definition iterativeDeepening :: "Move engine_sort \<Rightarrow> real \<Rightarrow> draws \<Rightarrow> clock \<Rightarrow> real \<times> real \<Rightarrow> GameModel \<Rightarrow> Move list \<Rightarrow> PieceColor \<Rightarrow> Move option" where
  "iterativeDeepening srt p rnd clk pick gm moves aiColor =
     (let startTime = clk 0 in
      case sortMoves srt rnd moves gm of
        (sortedMoves, rnd1) \<Rightarrow>
          (case deepen srt gm aiColor startTime [1, 2, 3, 4, 5, 6] (map (\<lambda>m. (m, NegInfinity)) sortedMoves) rnd1 (rest clk) of
             None \<Rightarrow> None
           | Some scoredMoves \<Rightarrow> selectMoveWithRandomness p pick scoredMoves))"

text \<open>
  \<open>AIWorker.makeMove\<close>. In the easy and medium tiers the one call of \<open>Math.random()\<close>
  returns \<open>fst pick\<close>.
\<close>

definition worker_makeMove :: "Move engine_sort \<Rightarrow> real \<Rightarrow> draws \<Rightarrow> clock \<Rightarrow> real \<times> real \<Rightarrow> GameJSON \<Rightarrow> PieceColor \<Rightarrow> AIDifficulty \<Rightarrow> Move option" where
  "worker_makeMove srt p rnd clk pick gameModelData aiColor difficulty =
     (let gm = fromJSON gameModelData in
      if currentTurn gm \<noteq> aiColor then None
      else
        (let moves = getAllValidMovesForCurrentPlayer gm in
         if length moves = 0 then None
         else
           (case difficulty of
              EASY \<Rightarrow> chooseRandomMove (fst pick) moves
            | MEDIUM \<Rightarrow> chooseMediumMove (fst pick) moves gm
            | HARD \<Rightarrow> iterativeDeepening srt p rnd clk pick gm moves aiColor)))"



section \<open>The sort of the V8 engine\<close>

text \<open>
  What \<open>Array.prototype.sort\<close> does in V8 (Node, Chrome; \<open>third_party/v8/builtins/array-sort.tq\<close>)
  to an array of fewer than 64 elements, none of them \<open>undefined\<close>. Every call of the
  comparator goes through \<open>ToNumber\<close>, and only the sign of the answer is used.

  \<open>CountAndMakeRun\<close> compares the second element with the first, then each further
  element with the one before it, as long as the order keeps going the same way
  (strictly descending, or not descending); a descending run is reversed.
  \<open>extendRun\<close> is its \<open>for\<close> statement: it returns the elements that join the run,
  the elements that do not, and the random values left.
\<close>

fun extendRun :: "'a comparator \<Rightarrow> bool \<Rightarrow> draws \<Rightarrow> 'a \<Rightarrow> 'a list \<Rightarrow> 'a list \<times> 'a list \<times> draws" where
  "extendRun cmp isDescending rnd previousElement [] = ([], [], rnd)"
| "extendRun cmp isDescending rnd previousElement (currentElement # others) =
     (case cmp rnd currentElement previousElement of
        (order, rnd1) \<Rightarrow>
          if (if isDescending then order \<ge> 0 else order < 0) then ([], currentElement # others, rnd1)
          else
            (case extendRun cmp isDescending rnd1 currentElement others of
               (run, remaining, rnd2) \<Rightarrow> (currentElement # run, remaining, rnd2)))"

definition countAndMakeRun :: "'a comparator \<Rightarrow> draws \<Rightarrow> 'a list \<Rightarrow> 'a list \<times> 'a list \<times> draws" where
  "countAndMakeRun cmp rnd xs =
     (case xs of
        [] \<Rightarrow> ([], [], rnd)
      | [elementHigh] \<Rightarrow> ([elementHigh], [], rnd)
      | elementHigh # elementLow # others \<Rightarrow>
          (case cmp rnd elementLow elementHigh of
             (order, rnd1) \<Rightarrow>
               (let isDescending = (order < 0) in
                case extendRun cmp isDescending rnd1 elementLow others of
                  (run, remaining, rnd2) \<Rightarrow>
                    (if isDescending then rev (elementHigh # elementLow # run)
                     else elementHigh # elementLow # run, remaining, rnd2))))"

text \<open>
  \<open>BinaryInsertionSort\<close> puts each element left after the run into the part already in order in
  front of it: a binary search between \<open>left\<close> and \<open>right\<close> compares the element (the
  pivot) with the middle one and goes left on a negative answer, right otherwise.
\<close>

function findInsertionPoint :: "'a comparator \<Rightarrow> draws \<Rightarrow> 'a \<Rightarrow> 'a list \<Rightarrow> nat \<Rightarrow> nat \<Rightarrow> nat \<times> draws" where
  "findInsertionPoint cmp rnd pivot placed left right =
     (if left < right then
        (let mid = left + (right - left) div 2 in
         case cmp rnd pivot (placed ! mid) of
           (order, rnd1) \<Rightarrow>
             if order < 0 then findInsertionPoint cmp rnd1 pivot placed left mid
             else findInsertionPoint cmp rnd1 pivot placed (mid + 1) right)
      else (left, rnd))"
  by pat_completeness auto
termination
  by (relation "measure (\<lambda>(cmp, rnd, pivot, placed, left, right). right - left)") auto

fun binaryInsertionSort :: "'a comparator \<Rightarrow> draws \<Rightarrow> 'a list \<Rightarrow> 'a list \<Rightarrow> 'a list \<times> draws" where
  "binaryInsertionSort cmp rnd placed [] = (placed, rnd)"
| "binaryInsertionSort cmp rnd placed (pivot # others) =
     (case findInsertionPoint cmp rnd pivot placed 0 (length placed) of
        (left, rnd1) \<Rightarrow>
          binaryInsertionSort cmp rnd1 (take left placed @ pivot # drop left placed) others)"

text \<open>
  An array of fewer than two elements is returned as it is. An array of fewer than 64
  elements is one run, completed by binary insertion. Longer arrays are cut into
  several runs that V8 then merges; that part is not modelled and is the parameter
  \<open>long\<close>.
\<close>

definition v8Sort :: "'a engine_sort \<Rightarrow> 'a engine_sort" where
  "v8Sort long cmp rnd xs =
     (if length xs < 2 then (xs, rnd)
      else if length xs < 64 then
        (case countAndMakeRun cmp rnd xs of
           (run, remaining, rnd1) \<Rightarrow> binaryInsertionSort cmp rnd1 run remaining)
      else long cmp rnd xs)"

text \<open>A stand-in for the part of V8 that is not modelled: the array is left as it is.\<close>

definition leaveAsIs :: "'a engine_sort" where
  "leaveAsIs cmp rnd xs = (xs, rnd)"

section \<open>Specification-side notions\<close>

text \<open>
  The board scanned file by file (file 0 first) and, within a file, rank by rank
  (rank 0 first): the fixed order in which the spec wants legal moves listed.
\<close>

definition fileMajorScan :: "Position list" where
  "fileMajorScan = concat (map (\<lambda>sx. map (\<lambda>sy. \<lparr>pos_x = sx, pos_y = sy\<rparr>) [0 .. 9]) [0 .. 8])"

text \<open>The live pieces of a state, in the order of the piece array.\<close>

definition livePieces :: "GameModel \<Rightarrow> PieceModel list" where
  "livePieces gm = filter isAlive (pieces gm)"

text \<open>
  A piece stands strictly between \<open>origin\<close> and the square \<open>(tx, ty)\<close>: on their common
  rank or on their common file, at a coordinate strictly inside the interval.
\<close>

definition strictlyBetween :: "Position \<Rightarrow> int \<Rightarrow> int \<Rightarrow> PieceModel \<Rightarrow> bool" where
  "strictlyBetween origin tx ty p =
     ((pos_y origin = ty \<and> pos_y (position p) = ty \<and>
        min (pos_x origin) tx < pos_x (position p) \<and> pos_x (position p) < max (pos_x origin) tx) \<or>
      (pos_x origin = tx \<and> pos_x (position p) = tx \<and>
        min (pos_y origin) ty < pos_y (position p) \<and> pos_y (position p) < max (pos_y origin) ty))"

text \<open>
  The two generals face each other: \<open>redKing\<close> and \<open>blackKing\<close> are the live generals
  the rule engine finds, they stand on one file, and no live piece stands on that file
  strictly between them.
\<close>

definition generalsFacing :: "GameModel \<Rightarrow> PieceModel \<Rightarrow> PieceModel \<Rightarrow> bool" where
  "generalsFacing gm redKing blackKing =
     (find (isLiveKing RED) (pieces gm) = Some redKing \<and>
      find (isLiveKing BLACK) (pieces gm) = Some blackKing \<and>
      pos_x (position redKing) = pos_x (position blackKing) \<and>
      filter (strictlyBetween (position redKing) (pos_x (position blackKing)) (pos_y (position blackKing)))
        (livePieces gm) = [])"

text \<open>
  Scores are linearly ordered, \<open>-Infinity\<close> below and \<open>Infinity\<close> above every number:
  the order that \<open>score_less\<close> computes.
\<close>

instantiation score :: linorder
begin

definition less_eq_score :: "score \<Rightarrow> score \<Rightarrow> bool" where
  "less_eq_score a b = (\<not> score_less b a)"

definition less_score :: "score \<Rightarrow> score \<Rightarrow> bool" where
  "less_score a b = score_less a b"

instance
proof
  fix x y z :: score
  show "(x < y) = (x \<le> y \<and> \<not> y \<le> x)"
    by (cases x; cases y) (auto simp: less_eq_score_def less_score_def)
  show "x \<le> x" by (cases x) (auto simp: less_eq_score_def)
  show "x \<le> y \<Longrightarrow> y \<le> z \<Longrightarrow> x \<le> z"
    by (cases x; cases y; cases z) (auto simp: less_eq_score_def)
  show "x \<le> y \<Longrightarrow> y \<le> x \<Longrightarrow> x = y"
    by (cases x; cases y) (auto simp: less_eq_score_def)
  show "x \<le> y \<or> y \<le> x"
    by (cases x; cases y) (auto simp: less_eq_score_def)
qed

end

text \<open>
  What is assumed of the engine's sort: whatever the comparator answers, the sorted
  array holds the elements of the array it was given.
\<close>

definition sortPermutes :: "'a engine_sort \<Rightarrow> bool" where
  "sortPermutes srt = (\<forall>cmp rnd xs. set (fst (srt cmp rnd xs)) = set xs)"

text \<open>The time limit of 1500 ms is never exceeded: no reading is more than that after the first.\<close>

definition neverTimesOut :: "clock \<Rightarrow> bool" where
  "neverTimesOut clk = (\<forall>n. clk n - clk 0 \<le> timeLimit)"

text \<open>
  The minimax value of a position, as the spec words it, without pruning and without
  ordering the moves: the static evaluation at depth 0 or when the side to move has no
  legal move, otherwise the greatest value of the positions after each legal move for
  the searching side, the least for its opponent.
\<close>

fun exactValue :: "GameModel \<Rightarrow> nat \<Rightarrow> bool \<Rightarrow> PieceColor \<Rightarrow> int" where
  "exactValue gm 0 isMaximizingPlayer aiColor = evaluatePosition gm aiColor"
| "exactValue gm (Suc d) isMaximizingPlayer aiColor =
     (let moves = getAllValidMovesForCurrentPlayer gm in
      if moves = [] then evaluatePosition gm aiColor
      else if isMaximizingPlayer then
        Max (set (map (\<lambda>m. exactValue (switchTurn (executeMove m gm)) d False aiColor) moves))
      else
        Min (set (map (\<lambda>m. exactValue (switchTurn (executeMove m gm)) d True aiColor) moves)))"

text \<open>
  The score of a move of the searching side at a depth of the iterative deepening, the
  best such score over the legal moves, the depth at which the deepening stops (the
  first of 1 to 6 whose best score exceeds 10000 in absolute value, else 6), and the
  legal moves that have the best score at that depth. All four are functions of the
  state alone.
\<close>

definition exactScore :: "GameModel \<Rightarrow> PieceColor \<Rightarrow> nat \<Rightarrow> Move \<Rightarrow> int" where
  "exactScore gm aiColor depth m = exactValue (switchTurn (executeMove m gm)) (depth - 1) False aiColor"

definition bestExact :: "GameModel \<Rightarrow> PieceColor \<Rightarrow> Move list \<Rightarrow> nat \<Rightarrow> int" where
  "bestExact gm aiColor moves depth = Max (set (map (exactScore gm aiColor depth) moves))"

fun finalDepth :: "GameModel \<Rightarrow> PieceColor \<Rightarrow> Move list \<Rightarrow> nat list \<Rightarrow> nat \<Rightarrow> nat" where
  "finalDepth gm aiColor moves [] reached = reached"
| "finalDepth gm aiColor moves (depth # depths) reached =
     (if \<bar>bestExact gm aiColor moves depth\<bar> > 10000 then depth
      else finalDepth gm aiColor moves depths depth)"

definition topMoves :: "GameModel \<Rightarrow> PieceColor \<Rightarrow> Move list" where
  "topMoves gm aiColor =
     (let moves = getAllValidMovesForCurrentPlayer gm;
          depth = finalDepth gm aiColor moves [1, 2, 3, 4, 5, 6] 0 in
      filter (\<lambda>m. exactScore gm aiColor depth m = bestExact gm aiColor moves depth) moves)"

text \<open>
  What the result \<open>r\<close> of a search with the window \<open>(a, b)\<close> says about the exact value
  \<open>v\<close>: at or below \<open>a\<close> it is an upper bound, at or above \<open>b\<close> a lower bound, and in
  between it is the value.
\<close>

definition fishburn :: "score \<Rightarrow> score \<Rightarrow> int \<Rightarrow> score \<Rightarrow> bool" where
  "fishburn a b v r =
     ((r \<le> a \<longrightarrow> Finite v \<le> r) \<and> (a < r \<and> r < b \<longrightarrow> r = Finite v) \<and> (b \<le> r \<longrightarrow> r \<le> Finite v))"


text \<open>A list of scored moves whose scores are the exact scores of its moves at one depth.\<close>

definition exactAt :: "GameModel \<Rightarrow> PieceColor \<Rightarrow> nat \<Rightarrow> (Move \<times> score) list \<Rightarrow> bool" where
  "exactAt gm aiColor depth scored = (\<forall>sm\<in>set scored. snd sm = Finite (exactScore gm aiColor depth (fst sm)))"

section \<open>Example states\<close>

text \<open>Two bare generals facing each other on file 4, red to move.\<close>

definition facingState :: GameModel where
  "facingState = newGameModel [newPiece KING RED 4 9 ''rk'', newPiece KING BLACK 4 0 ''bk''] RED"

text \<open>A red general alone on the board: the black general is missing.\<close>

definition loneRedState :: GameModel where
  "loneRedState = newGameModel [newPiece KING RED 4 9 ''rk''] BLACK"

text \<open>
  A red cannon on (1,7) with one platform, a red soldier on (1,5), in front of a black
  horse on (1,0).
\<close>

definition cannonState :: GameModel where
  "cannonState = newGameModel
     [newPiece KING RED 4 9 ''rk'', newPiece CANNON RED 1 7 ''rc'', newPiece SOLDIER RED 1 5 ''rs'',
      newPiece HORSE BLACK 1 0 ''bh'', newPiece KING BLACK 3 0 ''bk''] RED"

text \<open>
  A red cannon on (4,5) shielding its general on (4,9) from a black chariot on (4,0).
\<close>

definition pinState :: GameModel where
  "pinState = newGameModel
     [newPiece KING RED 4 9 ''rk'', newPiece CANNON RED 4 5 ''rc'',
      newPiece CHARIOT BLACK 4 0 ''bc'', newPiece KING BLACK 3 0 ''bk''] RED"

text \<open>The state \<open>pinState\<close> after the red cannon has stepped aside to (0,5).\<close>

definition pinStateAfter :: GameModel where
  "pinStateAfter = newGameModel
     [newPiece KING RED 4 9 ''rk'', newPiece CANNON RED 0 5 ''rc'',
      newPiece CHARIOT BLACK 4 0 ''bc'', newPiece KING BLACK 3 0 ''bk''] RED"

text \<open>
  The pieces of \<open>pinState\<close> in a game against the computer in which the computer plays
  red and red is to move, at difficulty \<open>d\<close>.
\<close>

definition aiTurnState :: "AIDifficulty \<Rightarrow> GameModel" where
  "aiTurnState d = GameModel (pieces pinState) RED PLAYING None False None [] [] PVE d RED"

text \<open>
  A red general on (3,9) and two red soldiers on (3,0) and (5,0) on either side of
  the black general on (4,0); red to move. Either soldier can take the general.
\<close>

definition tieState :: GameModel where
  "tieState = newGameModel
     [newPiece KING RED 3 9 ''rk'', newPiece SOLDIER RED 3 0 ''rs1'', newPiece SOLDIER RED 5 0 ''rs2'',
      newPiece KING BLACK 4 0 ''bk''] RED"

definition soldierLeftCaptures :: Move where
  "soldierLeftCaptures = \<lparr>move_piece = newPiece SOLDIER RED 3 0 ''rs1'', move_target = \<lparr>pos_x = 4, pos_y = 0\<rparr>\<rparr>"

definition soldierRightCaptures :: Move where
  "soldierRightCaptures = \<lparr>move_piece = newPiece SOLDIER RED 5 0 ''rs2'', move_target = \<lparr>pos_x = 4, pos_y = 0\<rparr>\<rparr>"

text \<open>
  The same with a black soldier on (2,0) in place of the red soldier on (5,0): the red
  soldier can take the black soldier or the black general.
\<close>

definition lateState :: GameModel where
  "lateState = newGameModel
     [newPiece KING RED 3 9 ''rk'', newPiece SOLDIER RED 3 0 ''rs1'', newPiece SOLDIER BLACK 2 0 ''bs'',
      newPiece KING BLACK 4 0 ''bk''] RED"

definition generalSteps :: Move where
  "generalSteps = \<lparr>move_piece = newPiece KING RED 3 9 ''rk'', move_target = \<lparr>pos_x = 3, pos_y = 8\<rparr>\<rparr>"

definition soldierTakesSoldier :: Move where
  "soldierTakesSoldier = \<lparr>move_piece = newPiece SOLDIER RED 3 0 ''rs1'', move_target = \<lparr>pos_x = 2, pos_y = 0\<rparr>\<rparr>"

text \<open>
  Two sequences of values of \<open>Math.random()\<close>, all 0.1 and all 0.9; a clock that stands
  still, and a clock that shows two seconds gone at every reading after the first.
\<close>

definition drawsLow :: draws where "drawsLow n = 1/10"
definition drawsHigh :: draws where "drawsHigh n = 9/10"
definition clockFrozen :: clock where "clockFrozen n = 0"
definition clockLate :: clock where "clockLate n = (if n = 0 then 0 else 2000)"

section \<open>Move generation\<close>

lemma canMove_in_bounds: "canMove piece a b gm \<Longrightarrow> 0 \<le> a \<and> a \<le> 8 \<and> 0 \<le> b \<and> b \<le> 9"
  by (simp add: canMove_def isValid_def BOARD_WIDTH_def BOARD_HEIGHT_def split: if_splits)

lemma fileMajorScan_length: "length fileMajorScan = 90"
  unfolding fileMajorScan_def by code_simp

lemma fileMajorScan_increasing:
  "sorted_wrt (\<lambda>p q. pos_x p < pos_x q \<or> (pos_x p = pos_x q \<and> pos_y p < pos_y q)) fileMajorScan"
  unfolding fileMajorScan_def by code_simp

lemma getValidMoves_mem:
  "(\<lparr>pos_x = a, pos_y = b\<rparr> \<in> set (getValidMoves piece gm)) = canMove piece a b gm"
proof
  assume "\<lparr>pos_x = a, pos_y = b\<rparr> \<in> set (getValidMoves piece gm)"
  then show "canMove piece a b gm" by (auto simp: getValidMoves_def)
next
  assume c: "canMove piece a b gm"
  from canMove_in_bounds[OF c] have "a \<in> {0..8}" "b \<in> {0..9}" by auto
  with c show "\<lparr>pos_x = a, pos_y = b\<rparr> \<in> set (getValidMoves piece gm)"
    unfolding getValidMoves_def by (simp add: image_iff)
qed

lemma getValidMoves_scan:
  "getValidMoves piece gm = filter (\<lambda>q. canMove piece (pos_x q) (pos_y q) gm) fileMajorScan"
  by (simp add: getValidMoves_def fileMajorScan_def filter_concat filter_map comp_def)

text \<open>
  Claim C2. \<open>getValidMoves\<close> lists a square exactly when \<open>canMove\<close> accepts it (for every
  square, so in particular for the 9 \<times> 10 squares of the board), and the list is the
  file-major scan of the board filtered by \<open>canMove\<close>; being a function of piece and
  state, it is the same list on equal states.
\<close>

theorem getValidMoves_exhaustive_file_major:
  "(\<forall>a b. (\<lparr>pos_x = a, pos_y = b\<rparr> \<in> set (getValidMoves piece gm)) = canMove piece a b gm) \<and>
   getValidMoves piece gm = filter (\<lambda>q. canMove piece (pos_x q) (pos_y q) gm) fileMajorScan"
  using getValidMoves_mem getValidMoves_scan by blast

theorem getValidMoves_exhaustive_file_major_witness:
  "\<lparr>pos_x = 0, pos_y = 5\<rparr> \<in> set (getValidMoves (newPiece CANNON RED 4 5 ''rc'') pinState) \<and>
   \<lparr>pos_x = 0, pos_y = 4\<rparr> \<notin> set (getValidMoves (newPiece CANNON RED 4 5 ''rc'') pinState)"
proof -
  have yes: "canMove (newPiece CANNON RED 4 5 ''rc'') 0 5 pinState" by code_simp
  have no: "\<not> canMove (newPiece CANNON RED 4 5 ''rc'') 0 4 pinState" by code_simp
  from yes no getValidMoves_exhaustive_file_major[of "newPiece CANNON RED 4 5 ''rc''" pinState]
  show ?thesis by blast
qed

section \<open>Facing generals and missing generals\<close>

lemma getPieceAt_None_iff:
  "(getPieceAt gm tx ty = None) =
   (\<forall>p \<in> set (livePieces gm). \<not> (pos_x (position p) = tx \<and> pos_y (position p) = ty))"
  by (auto simp: getPieceAt_def find_None_iff occupies_def livePieces_def)

lemma generalsFacing_faceToFace:
  assumes "generalsFacing gm redKing blackKing"
  shows "isKingFaceToFace gm"
  using assms
  by (auto simp: generalsFacing_def isKingFaceToFace_def list_all_iff getPieceAt_None_iff
      filter_empty_conv strictlyBetween_def)

lemma find_Some_list_ex: "find P xs = Some a \<Longrightarrow> list_ex P xs"
  by (auto simp: find_Some_iff list_ex_iff)

text \<open>
  Claim C3. When both generals are alive, stand on the same file and no live piece
  stands strictly between them, \<open>checkGameOver\<close> returns the side to move as the winner.
\<close>

theorem checkGameOver_facing_generals:
  assumes "generalsFacing gm redKing blackKing"
  shows "checkGameOver gm = Some (currentTurn gm)"
proof -
  have r: "generalAlive RED gm" and b: "generalAlive BLACK gm"
    using assms by (auto simp: generalsFacing_def generalAlive_def dest: find_Some_list_ex)
  have "isKingFaceToFace gm" using assms by (rule generalsFacing_faceToFace)
  with r b show ?thesis
    by (cases "currentTurn gm") (simp_all add: checkGameOver_def)
qed

theorem checkGameOver_facing_generals_witness:
  "generalsFacing facingState (newPiece KING RED 4 9 ''rk'') (newPiece KING BLACK 4 0 ''bk'') \<and>
   checkGameOver facingState = Some RED"
proof -
  have f: "generalsFacing facingState (newPiece KING RED 4 9 ''rk'') (newPiece KING BLACK 4 0 ''bk'')"
    by code_simp
  have t: "currentTurn facingState = RED" by code_simp
  from checkGameOver_facing_generals[OF f] f t show ?thesis by simp
qed

text \<open>
  Claim C10. When both generals are alive and face each other on an open file,
  \<open>isInCheck\<close> is true for red and for black alike, whoever is to move.
\<close>

theorem isInCheck_both_sides_when_facing:
  assumes "generalsFacing gm redKing blackKing"
  shows "isInCheck RED gm \<and> isInCheck BLACK gm"
proof -
  have f: "isKingFaceToFace gm" using assms by (rule generalsFacing_faceToFace)
  have "find (isLiveKing RED) (pieces gm) = Some redKing"
    and "find (isLiveKing BLACK) (pieces gm) = Some blackKing"
    using assms by (simp_all add: generalsFacing_def)
  with f show ?thesis by (simp add: isInCheck_def)
qed

theorem isInCheck_both_sides_when_facing_witness:
  "isInCheck RED facingState \<and> isInCheck BLACK facingState"
proof -
  have f: "generalsFacing facingState (newPiece KING RED 4 9 ''rk'') (newPiece KING BLACK 4 0 ''bk'')"
    by code_simp
  show ?thesis by (rule isInCheck_both_sides_when_facing[OF f])
qed

lemma not_generalAlive_find: "\<not> generalAlive c gm \<Longrightarrow> find (isLiveKing c) (pieces gm) = None"
  by (simp add: generalAlive_def list_ex_iff find_None_iff)

text \<open>
  Claim C4. When the general of one side \<open>c\<close> is not alive (and the other side's is),
  \<open>isInCheck c\<close> returns false and \<open>checkGameOver\<close> returns the opponent of \<open>c\<close> as the
  winner. Neither function has a branch that throws here.
\<close>

theorem missing_general_no_check_opponent_wins:
  assumes "\<not> generalAlive c gm" and "generalAlive (opponent c) gm"
  shows "isInCheck c gm = False \<and> checkGameOver gm = Some (opponent c)"
proof -
  have "isInCheck c gm = False"
    using assms(1) by (simp add: isInCheck_def not_generalAlive_find)
  moreover have "checkGameOver gm = Some (opponent c)"
    using assms by (cases c) (auto simp: checkGameOver_def opponent_def)
  ultimately show ?thesis by simp
qed

theorem missing_general_no_check_opponent_wins_witness:
  "isInCheck BLACK loneRedState = False \<and> checkGameOver loneRedState = Some RED"
proof -
  have m: "\<not> generalAlive BLACK loneRedState" by code_simp
  have a: "generalAlive (opponent BLACK) loneRedState" by code_simp
  have o: "opponent BLACK = RED" by code_simp
  from missing_general_no_check_opponent_wins[OF m a] o show ?thesis by simp
qed

lemma isInCheck_missing_general: "\<not> generalAlive c gm \<Longrightarrow> \<not> isInCheck c gm"
  by (simp add: isInCheck_def not_generalAlive_find)

lemma checkGameOver_red_missing: "\<not> generalAlive RED gm \<Longrightarrow> checkGameOver gm = Some BLACK"
  by (simp add: checkGameOver_def)

section \<open>The cannon\<close>

lemma count_match:
  assumes dL: "distinct (map f L)" and dk: "distinct ks" and ig: "inj_on g (set ks)"
  shows "length (filter (\<lambda>k. \<exists>p\<in>set L. f p = g k) ks) = length (filter (\<lambda>p. f p \<in> g ` set ks) L)"
proof -
  let ?A = "{k \<in> set ks. \<exists>p\<in>set L. f p = g k}"
  let ?B = "{p \<in> set L. f p \<in> g ` set ks}"
  have dLL: "distinct L" and iF: "inj_on f (set L)" using dL by (auto simp: distinct_map)
  have "length (filter (\<lambda>k. \<exists>p\<in>set L. f p = g k) ks) = card ?A"
    using dk by (simp add: distinct_length_filter Collect_conj_eq Int_commute)
  moreover have "length (filter (\<lambda>p. f p \<in> g ` set ks) L) = card ?B"
    using dLL by (simp add: distinct_length_filter Collect_conj_eq Int_commute)
  moreover have "g ` ?A = f ` ?B"
  proof (intro set_eqI iffI)
    fix v assume "v \<in> g ` ?A"
    then obtain k p where "k \<in> set ks" "p \<in> set L" "f p = g k" "v = g k" by auto
    then show "v \<in> f ` ?B" by (intro image_eqI[where x = p]) auto
  next
    fix v assume "v \<in> f ` ?B"
    then obtain p k where "p \<in> set L" "k \<in> set ks" "f p = g k" "v = f p" by auto
    then show "v \<in> g ` ?A" by (intro image_eqI[where x = k]) auto
  qed
  moreover have "card (g ` ?A) = card ?A"
    by (rule card_image) (rule inj_on_subset[OF ig], auto)
  moreover have "card (f ` ?B) = card ?B"
    by (rule card_image) (rule inj_on_subset[OF iF], auto)
  ultimately show ?thesis by simp
qed

lemma Position_eq_iff: "(q = \<lparr>pos_x = a, pos_y = b\<rparr>) = (pos_x q = a \<and> pos_y q = b)"
  by auto

lemma occupied_iff:
  "(getPieceAt gm tx ty \<noteq> None) = (\<exists>p \<in> set (livePieces gm). position p = \<lparr>pos_x = tx, pos_y = ty\<rparr>)"
  by (simp add: getPieceAt_None_iff Position_eq_iff)

lemma occupied_count_rank:
  assumes d: "distinct (map position (livePieces gm))"
  shows "length (filter (\<lambda>sx. getPieceAt gm sx ty \<noteq> None) [a .. b]) =
         length (filter (\<lambda>p. pos_y (position p) = ty \<and> a \<le> pos_x (position p) \<and> pos_x (position p) \<le> b)
                   (livePieces gm))"
proof -
  have "length (filter (\<lambda>sx. getPieceAt gm sx ty \<noteq> None) [a .. b]) =
        length (filter (\<lambda>k. \<exists>p\<in>set (livePieces gm). position p = \<lparr>pos_x = k, pos_y = ty\<rparr>) [a .. b])"
    by (simp only: occupied_iff)
  also have "\<dots> = length (filter (\<lambda>p. position p \<in> (\<lambda>k. \<lparr>pos_x = k, pos_y = ty\<rparr>) ` set [a .. b]) (livePieces gm))"
    by (rule count_match[OF d]) (auto simp: inj_on_def)
  also have "\<dots> = length (filter (\<lambda>p. pos_y (position p) = ty \<and> a \<le> pos_x (position p) \<and> pos_x (position p) \<le> b)
                            (livePieces gm))"
    by (rule arg_cong[where f = length], rule filter_cong) (auto simp: image_iff Position_eq_iff)
  finally show ?thesis .
qed

lemma occupied_count_file:
  assumes d: "distinct (map position (livePieces gm))"
  shows "length (filter (\<lambda>sy. getPieceAt gm tx sy \<noteq> None) [a .. b]) =
         length (filter (\<lambda>p. pos_x (position p) = tx \<and> a \<le> pos_y (position p) \<and> pos_y (position p) \<le> b)
                   (livePieces gm))"
proof -
  have "length (filter (\<lambda>sy. getPieceAt gm tx sy \<noteq> None) [a .. b]) =
        length (filter (\<lambda>k. \<exists>p\<in>set (livePieces gm). position p = \<lparr>pos_x = tx, pos_y = k\<rparr>) [a .. b])"
    by (simp only: occupied_iff)
  also have "\<dots> = length (filter (\<lambda>p. position p \<in> (\<lambda>k. \<lparr>pos_x = tx, pos_y = k\<rparr>) ` set [a .. b]) (livePieces gm))"
    by (rule count_match[OF d]) (auto simp: inj_on_def)
  also have "\<dots> = length (filter (\<lambda>p. pos_x (position p) = tx \<and> a \<le> pos_y (position p) \<and> pos_y (position p) \<le> b)
                            (livePieces gm))"
    by (rule arg_cong[where f = length], rule filter_cong) (auto simp: image_iff Position_eq_iff)
  finally show ?thesis .
qed

lemma mountCount_counts_live_pieces:
  assumes d: "distinct (map position (livePieces gm))"
    and line: "pos_x (position cannon) = tx \<or> pos_y (position cannon) = ty"
  shows "mountCount cannon tx ty gm =
         length (filter (strictlyBetween (position cannon) tx ty) (livePieces gm))"
proof (cases "pos_y (position cannon) = ty")
  case True
  show ?thesis
    unfolding mountCount_def Let_def using True
    apply (simp add: occupied_count_rank[OF d] del: not_None_eq)
    apply (rule arg_cong[where f = length], rule filter_cong)
     apply (auto simp: strictlyBetween_def)
    done
next
  case False
  with line have X: "pos_x (position cannon) = tx" by simp
  show ?thesis
    unfolding mountCount_def Let_def using False X
    apply (simp add: occupied_count_file[OF d] del: not_None_eq)
    apply (rule arg_cong[where f = length], rule filter_cong)
     apply (auto simp: strictlyBetween_def)
    done
qed

lemma isPathClear_no_live_piece_between:
  assumes line: "pos_x (position piece) = tx \<or> pos_y (position piece) = ty"
  shows "isPathClear piece tx ty gm =
         (filter (strictlyBetween (position piece) tx ty) (livePieces gm) = [])"
  using line
  by (auto simp: isPathClear_def Let_def list_all_iff getPieceAt_None_iff filter_empty_conv
      strictlyBetween_def)

text \<open>
  Claim C5. In a state whose live pieces stand on pairwise different squares, for a
  target on the cannon's file or rank: if the target is occupied by a live piece, the
  cannon's movement rule accepts the move exactly when one live piece stands strictly
  between origin and target; if the target is empty, exactly when none does.
\<close>

theorem canMoveCannon_platform_rule:
  assumes "distinct (map position (livePieces gm))"
    and "pos_x (position cannon) = tx \<or> pos_y (position cannon) = ty"
  shows "canMoveCannon cannon tx ty gm =
           (if getPieceAt gm tx ty \<noteq> None
            then length (filter (strictlyBetween (position cannon) tx ty) (livePieces gm)) = 1
            else filter (strictlyBetween (position cannon) tx ty) (livePieces gm) = [])"
proof -
  have line: "(pos_x (position cannon) \<noteq> tx \<and> pos_y (position cannon) \<noteq> ty) = False"
    using assms(2) by auto
  show ?thesis
    unfolding canMoveCannon_def hasExactlyOneCannonMount_def
    by (simp add: line mountCount_counts_live_pieces[OF assms]
        isPathClear_no_live_piece_between[OF assms(2)] del: not_None_eq)
qed

theorem canMoveCannon_platform_rule_witness:
  "canMoveCannon (newPiece CANNON RED 1 7 ''rc'') 1 0 cannonState \<and>
   \<not> canMoveCannon (newPiece CANNON RED 1 7 ''rc'') 1 5 cannonState \<and>
   canMoveCannon (newPiece CANNON RED 1 7 ''rc'') 1 6 cannonState"
proof -
  let ?c = "newPiece CANNON RED 1 7 ''rc''"
  have d: "distinct (map position (livePieces cannonState))" by code_simp
  have l: "\<And>ty. pos_x (position ?c) = 1 \<or> pos_y (position ?c) = ty" by (simp add: newPiece_def)
  have o0: "getPieceAt cannonState 1 0 \<noteq> None" by code_simp
  have n0: "length (filter (strictlyBetween (position ?c) 1 0) (livePieces cannonState)) = 1"
    by code_simp
  have o5: "getPieceAt cannonState 1 5 \<noteq> None" by code_simp
  have n5: "length (filter (strictlyBetween (position ?c) 1 5) (livePieces cannonState)) \<noteq> 1"
    by code_simp
  have o6: "getPieceAt cannonState 1 6 = None" by code_simp
  have n6: "filter (strictlyBetween (position ?c) 1 6) (livePieces cannonState) = []"
    by code_simp
  show ?thesis
    using canMoveCannon_platform_rule[OF d l, of 0] canMoveCannon_platform_rule[OF d l, of 5]
      canMoveCannon_platform_rule[OF d l, of 6] o0 n0 o5 n5 o6 n6
    by simp
qed

section \<open>The self-check veto\<close>

lemma findIndex_Some_iff: "(\<exists>i. findIndex P xs = Some i) = (\<exists>a \<in> set xs. P a)"
  by (induction xs) (auto split: option.splits)

lemma simulateMove_defined:
  assumes "piece \<in> set (pieces gm)"
  shows "\<exists>gameCopy. simulateMove piece tx ty gm = Some gameCopy"
proof -
  from assms have "\<exists>a \<in> set (pieces gm). pid a = pid piece" by auto
  then obtain i where "findIndex (\<lambda>p. pid p = pid piece) (pieces gm) = Some i"
    using findIndex_Some_iff[of "\<lambda>p. pid p = pid piece" "pieces gm"] by auto
  then show ?thesis by (simp add: simulateMove_def Let_def)
qed

text \<open>
  For the six piece types other than the cannon, every accepted move passes the
  simulation: the mover's side is not in check in the simulated state.
\<close>

lemma canMove_self_check_veto_except_cannon:
  assumes "canMove piece tx ty gm" and "ptype piece \<noteq> CANNON" and "piece \<in> set (pieces gm)"
  shows "\<exists>gameCopy. simulateMove piece tx ty gm = Some gameCopy \<and> \<not> isInCheck (color piece) gameCopy"
proof -
  have "\<not> wouldBeInCheckAfterMove piece tx ty gm"
    using assms(1,2)
    by (cases "ptype piece")
      (auto simp: canMove_def canMoveKing_def canMoveAdvisor_def canMoveElephant_def canMoveHorse_def
        canMoveChariot_def canMoveSoldier_def Let_def split: if_splits)
  moreover obtain gameCopy where "simulateMove piece tx ty gm = Some gameCopy"
    using simulateMove_defined[OF assms(3)] by blast
  ultimately show ?thesis by (simp add: wouldBeInCheckAfterMove_def)
qed

text \<open>
  Claim C1. The claim asks that every move accepted by \<open>canMove\<close> leaves the mover's own
  general out of check, for all seven piece types. The cannon's rule never runs the
  simulation: in \<open>pinState\<close> the red cannon on (4,5) is a live piece of the state, the
  piece ids are pairwise different, red is not in check, \<open>canMove\<close> accepts the cannon's
  step to the empty square (0,5), and in the state after that move (the cannon on
  (0,5), nothing captured) red is in check from the black chariot on (4,0).
\<close>

theorem canMove_cannon_exposes_own_general:
  "newPiece CANNON RED 4 5 ''rc'' \<in> set (pieces pinState) \<and>
   distinct (map pid (pieces pinState)) \<and>
   distinct (map position (livePieces pinState)) \<and>
   \<not> isInCheck RED pinState \<and>
   canMove (newPiece CANNON RED 4 5 ''rc'') 0 5 pinState \<and>
   simulateMove (newPiece CANNON RED 4 5 ''rc'') 0 5 pinState = Some pinStateAfter \<and>
   isInCheck RED pinStateAfter"
  by code_simp

section \<open>Position tables\<close>

lemma getPositionValue_mirror_rank_8:
  "getPositionValue \<lparr>ptype = t, color = BLACK, position = \<lparr>pos_x = a, pos_y = b\<rparr>, isAlive = l, pid = i\<rparr> =
   getPositionValue \<lparr>ptype = t, color = RED, position = \<lparr>pos_x = a, pos_y = 8 - b\<rparr>, isAlive = l', pid = i'\<rparr>"
  by (simp add: getPositionValue_def split: option.splits)

text \<open>
  Claim C6. The claim asks that a black piece on \<open>(x, y)\<close> gets the bonus of a red piece
  of the same type on \<open>(x, 9 - y)\<close>. The code mirrors with \<open>8 - y\<close> into tables of nine
  rows, so the two differ already in the starting layout: the black horse on (1,0) gets
  5, the red horse on the mirrored square (1,9) gets 0; likewise the black general on
  (4,1) gets 10 and the red general on (4,8) gets 0.
\<close>

theorem getPositionValue_not_mirrored_at_midline:
  "getPositionValue (newPiece HORSE BLACK 1 0 ''bh'') = 5 \<and>
   getPositionValue (newPiece HORSE RED 1 (9 - 0) ''rh'') = 0 \<and>
   getPositionValue (newPiece KING BLACK 4 1 ''bk'') = 10 \<and>
   getPositionValue (newPiece KING RED 4 (9 - 1) ''rk'') = 0"
  by code_simp

section \<open>Serialisation round trip\<close>

lemma PieceModel_roundtrip: "PieceModel_fromJSON (PieceModel_toJSON p) = p"
  by (simp add: PieceModel_fromJSON_def PieceModel_toJSON_def)

lemma GameModel_roundtrip: "fromJSON (toJSON m) = m"
proof (induction m)
  case (GameModel ps turn st w chk sel vms hist gmode diff aic)
  have "map (fromJSON \<circ> toJSON) hist = hist"
    using GameModel.IH by (simp add: map_idI)
  then show ?case by (simp add: comp_def PieceModel_roundtrip)
qed

text \<open>
  Claim C9. \<open>fromJSON (toJSON m)\<close> has the pieces of \<open>m\<close>, equal in id, type, side,
  position and liveness and in the same order, and the side to move, the check flag
  and the winner of \<open>m\<close>.
\<close>

theorem fromJSON_toJSON_roundtrip:
  "map (\<lambda>p. (pid p, ptype p, color p, pos_x (position p), pos_y (position p), isAlive p))
       (pieces (fromJSON (toJSON m))) =
   map (\<lambda>p. (pid p, ptype p, color p, pos_x (position p), pos_y (position p), isAlive p)) (pieces m) \<and>
   currentTurn (fromJSON (toJSON m)) = currentTurn m \<and>
   inCheckFlag (fromJSON (toJSON m)) = inCheckFlag m \<and>
   winner (fromJSON (toJSON m)) = winner m"
  by (simp add: GameModel_roundtrip)

section \<open>Main-thread AI: when a move is returned\<close>

lemma chooseRandomMove_Some:
  assumes ne: "moves \<noteq> []" and r0: "0 \<le> r" and r1: "r < 1"
  shows "\<exists>m. chooseRandomMove r moves = Some m"
proof -
  have n: "0 < real (length moves)" using ne by simp
  have "r * real (length moves) < real (length moves)" using r1 n by simp
  then have "\<lfloor>r * real (length moves)\<rfloor> < int (length moves)" by linarith
  moreover have "0 \<le> \<lfloor>r * real (length moves)\<rfloor>" using r0 by simp
  ultimately show ?thesis by (simp add: chooseRandomMove_def at_index_def)
qed

lemma chooseMediumMove_Some:
  "moves \<noteq> [] \<Longrightarrow> 0 \<le> r \<Longrightarrow> r < 1 \<Longrightarrow> \<exists>m. chooseMediumMove r moves gm = Some m"
  by (auto simp: chooseMediumMove_def Let_def intro!: chooseRandomMove_Some)

lemma hardStep_keeps_move: "fst best \<noteq> None \<Longrightarrow> fst (hardStep gm m best) \<noteq> None"
  by (simp add: hardStep_def Let_def del: not_None_eq)

lemma fold_hardStep_keeps_move: "fst best \<noteq> None \<Longrightarrow> fst (fold (hardStep gm) ms best) \<noteq> None"
  by (induction ms arbitrary: best) (simp_all add: hardStep_keeps_move del: not_None_eq)

lemma chooseHardMove_Some:
  assumes "moves \<noteq> []"
  shows "\<exists>m. chooseHardMove moves gm = Some m"
proof -
  from assms have "fst (at_index moves 0, None :: int option) \<noteq> None"
    by (simp add: at_index_def)
  from fold_hardStep_keeps_move[OF this] show ?thesis by (auto simp: chooseHardMove_def)
qed

lemma getAllValidMoves_nonempty:
  "currentTurn gm = aiPlayerColor gm \<Longrightarrow> (getAllValidMoves gm \<noteq> []) = hasValidMove gm"
  by (auto simp: getAllValidMoves_def hasValidMove_def getCurrentTurnPieces_def
      getPiecesByColor_def list_ex_iff)

text \<open>
  Claim C8, as stated, fails: in \<open>pinState\<close> red is to move and has a legal move, but
  the computer plays black there (the default), and \<open>makeMove\<close> returns \<open>null\<close>.
\<close>

theorem makeMove_none_with_legal_moves:
  "hasValidMove pinState \<and> makeMove 0 pinState = None"
  by code_simp

text \<open>
  Claim C8, amended. \<open>makeMove\<close> returns \<open>null\<close> exactly when it is not the computer's
  turn or the side to move has no legal move; so whenever it is the computer's turn and
  the side to move has a legal move, a move is returned, at every difficulty. The
  number \<open>r\<close> is the value \<open>Math.random()\<close> returns, which lies in \<open>[0, 1)\<close>.
\<close>

theorem makeMove_none_iff:
  assumes "0 \<le> r" and "r < 1"
  shows "(makeMove r gm = None) = (currentTurn gm \<noteq> aiPlayerColor gm \<or> \<not> hasValidMove gm)"
proof (cases "currentTurn gm = aiPlayerColor gm")
  case False
  then show ?thesis by (simp add: makeMove_def)
next
  case turn: True
  show ?thesis
  proof (cases "getAllValidMoves gm = []")
    case True
    with turn show ?thesis
      using getAllValidMoves_nonempty[of gm] by (simp add: makeMove_def)
  next
    case False
    then have h: "hasValidMove gm" using getAllValidMoves_nonempty[OF turn] by simp
    have "makeMove r gm \<noteq> None"
      using False turn chooseRandomMove_Some[OF False assms] chooseHardMove_Some[OF False, of gm]
        chooseMediumMove_Some[OF False assms, of gm]
      by (cases "aiDifficulty gm") (auto simp: makeMove_def Let_def)
    with h turn show ?thesis by simp
  qed
qed

theorem makeMove_none_iff_witness:
  "makeMove (1/2) (aiTurnState EASY) \<noteq> None \<and>
   makeMove (1/2) (aiTurnState MEDIUM) \<noteq> None \<and>
   makeMove (1/2) (aiTurnState HARD) \<noteq> None"
proof -
  have r: "(0::real) \<le> 1/2" "(1/2::real) < 1" by simp_all
  have t: "\<And>d. currentTurn (aiTurnState d) = aiPlayerColor (aiTurnState d)"
    by (simp add: aiTurnState_def)
  have h: "hasValidMove (aiTurnState EASY)" "hasValidMove (aiTurnState MEDIUM)"
    "hasValidMove (aiTurnState HARD)" by code_simp+
  show ?thesis
    using makeMove_none_iff[OF r, of "aiTurnState EASY"] makeMove_none_iff[OF r, of "aiTurnState MEDIUM"]
      makeMove_none_iff[OF r, of "aiTurnState HARD"] t h
    by simp
qed

text \<open>The hard tier of the main-thread AI draws no random value at all.\<close>

lemma makeMove_hard_ignores_random:
  "aiDifficulty gm = HARD \<Longrightarrow> makeMove r gm = makeMove r' gm"
  by (simp add: makeMove_def Let_def)

section \<open>Worker AI: the search is exact\<close>

lemma score_max_eq: "score_max a b = max a b"
  by (cases a; cases b) (auto simp: score_max_def max_def less_eq_score_def)

lemma score_min_eq: "score_min a b = min a b"
  by (cases a; cases b) (auto simp: score_min_def min_def less_eq_score_def)

lemma score_le_eq: "score_le a b = (a \<le> b)"
  by (simp add: score_le_def less_eq_score_def)

lemma Finite_le_iff [simp]: "(Finite x \<le> Finite y) = (x \<le> y)"
  by (auto simp: less_eq_score_def)

lemma Finite_less_iff [simp]: "(Finite x < Finite y) = (x < y)"
  by (simp add: less_score_def)

lemma NegInfinity_least [simp]: "NegInfinity \<le> s"
  by (cases s) (auto simp: less_eq_score_def)

lemma PosInfinity_greatest [simp]: "s \<le> PosInfinity"
  by (cases s) (auto simp: less_eq_score_def)

lemma NegInfinity_less_PosInfinity [simp]: "NegInfinity < PosInfinity"
  by (simp add: less_score_def)

lemma maxLoop_bounds:
  fixes v :: "Move \<Rightarrow> int"
  assumes child: "\<And>rnd m a b. a < b \<Longrightarrow>
      fishburn a b (v m) (fst (minimax srt rnd (switchTurn (executeMove m gm)) d a b False aiColor))"
  shows "M \<le> a \<Longrightarrow> a < b \<Longrightarrow>
     M \<le> fst (maxLoop srt rnd gm d ms M a b aiColor) \<and>
     (fst (maxLoop srt rnd gm d ms M a b aiColor) \<le> a \<longrightarrow>
        (\<forall>m\<in>set ms. Finite (v m) \<le> fst (maxLoop srt rnd gm d ms M a b aiColor))) \<and>
     (a < fst (maxLoop srt rnd gm d ms M a b aiColor) \<and> fst (maxLoop srt rnd gm d ms M a b aiColor) < b \<longrightarrow>
        (\<forall>m\<in>set ms. Finite (v m) \<le> fst (maxLoop srt rnd gm d ms M a b aiColor)) \<and>
        (\<exists>m\<in>set ms. Finite (v m) = fst (maxLoop srt rnd gm d ms M a b aiColor))) \<and>
     (b \<le> fst (maxLoop srt rnd gm d ms M a b aiColor) \<longrightarrow>
        (\<exists>m\<in>set ms. fst (maxLoop srt rnd gm d ms M a b aiColor) \<le> Finite (v m)))"
proof (induction ms arbitrary: rnd M a)
  case Nil
  then show ?case by auto
next
  case (Cons m ms)
  obtain r rnd1 where call: "minimax srt rnd (switchTurn (executeMove m gm)) d a b False aiColor = (r, rnd1)"
    by (cases "minimax srt rnd (switchTurn (executeMove m gm)) d a b False aiColor")
  have fb: "fishburn a b (v m) r" using child[where rnd = rnd and m = m, OF Cons.prems(2)] call by simp
  show ?case
  proof (cases "b \<le> max a r")
    case True
    then have rb: "b \<le> r" using Cons.prems(2) by (auto simp: max_def split: if_splits)
    have res: "fst (maxLoop srt rnd gm d (m # ms) M a b aiColor) = max M r"
      using call True by (simp add: score_max_eq score_le_eq Let_def)
    have Mr: "max M r = r" using rb Cons.prems by (auto simp: max_def)
    have "r \<le> Finite (v m)" using fb rb by (simp add: fishburn_def)
    then show ?thesis using res Mr rb Cons.prems by auto
  next
    case False
    then have rb: "r < b" and ab: "max a r < b" by (auto simp: max_def split: if_splits)
    let ?R = "fst (maxLoop srt rnd1 gm d ms (max M r) (max a r) b aiColor)"
    have res: "fst (maxLoop srt rnd gm d (m # ms) M a b aiColor) = ?R"
      using call False by (simp add: score_max_eq score_le_eq Let_def)
    have Ma: "max M r \<le> max a r" using Cons.prems(1) by (auto simp: max_def)
    note IH = Cons.IH[OF Ma ab, of rnd1]
    have vm_le: "Finite (v m) \<le> r" using fb rb by (auto simp: fishburn_def not_le)
    have vm_eq: "a < r \<Longrightarrow> r = Finite (v m)" using fb rb by (auto simp: fishburn_def)
    have ge: "max M r \<le> ?R" using IH by simp
    have c1: "M \<le> ?R" using ge by (auto simp: max_def split: if_splits)
    have rR: "r \<le> ?R" using ge by (auto simp: max_def split: if_splits)
    have c2: "?R \<le> a \<longrightarrow> (\<forall>x\<in>set (m # ms). Finite (v x) \<le> ?R)"
    proof
      assume Ra: "?R \<le> a"
      then have "r \<le> a" using rR by simp
      then have "max a r = a" by (simp add: max_def)
      with IH Ra have "\<forall>x\<in>set ms. Finite (v x) \<le> ?R" by simp
      moreover have "Finite (v m) \<le> ?R" using vm_le rR by simp
      ultimately show "\<forall>x\<in>set (m # ms). Finite (v x) \<le> ?R" by simp
    qed
    have c3: "a < ?R \<and> ?R < b \<longrightarrow>
        (\<forall>x\<in>set (m # ms). Finite (v x) \<le> ?R) \<and> (\<exists>x\<in>set (m # ms). Finite (v x) = ?R)"
    proof
      assume A: "a < ?R \<and> ?R < b"
      show "(\<forall>x\<in>set (m # ms). Finite (v x) \<le> ?R) \<and> (\<exists>x\<in>set (m # ms). Finite (v x) = ?R)"
      proof (cases "?R \<le> max a r")
        case True
        then have "\<forall>x\<in>set ms. Finite (v x) \<le> ?R" using IH by simp
        moreover have "max a r = r" using True A by (auto simp: max_def split: if_splits)
        then have "?R = r" and "a < r" using True rR A by (auto simp: max_def split: if_splits)
        then have "Finite (v m) = ?R" using vm_eq by simp
        ultimately show ?thesis by auto
      next
        case False
        then have gt: "max a r < ?R" by (simp add: not_le)
        with A IH have "(\<forall>x\<in>set ms. Finite (v x) \<le> ?R) \<and> (\<exists>x\<in>set ms. Finite (v x) = ?R)" by simp
        moreover have "Finite (v m) \<le> ?R" using vm_le rR by simp
        ultimately show ?thesis by auto
      qed
    qed
    have c4: "b \<le> ?R \<longrightarrow> (\<exists>x\<in>set (m # ms). ?R \<le> Finite (v x))"
      using IH by auto
    show ?thesis using res c1 c2 c3 c4 by simp
  qed
qed

lemma minLoop_bounds:
  fixes v :: "Move \<Rightarrow> int"
  assumes child: "\<And>rnd m a b. a < b \<Longrightarrow>
      fishburn a b (v m) (fst (minimax srt rnd (switchTurn (executeMove m gm)) d a b True aiColor))"
  shows "b \<le> M \<Longrightarrow> a < b \<Longrightarrow>
     fst (minLoop srt rnd gm d ms M a b aiColor) \<le> M \<and>
     (b \<le> fst (minLoop srt rnd gm d ms M a b aiColor) \<longrightarrow>
        (\<forall>m\<in>set ms. fst (minLoop srt rnd gm d ms M a b aiColor) \<le> Finite (v m))) \<and>
     (a < fst (minLoop srt rnd gm d ms M a b aiColor) \<and> fst (minLoop srt rnd gm d ms M a b aiColor) < b \<longrightarrow>
        (\<forall>m\<in>set ms. fst (minLoop srt rnd gm d ms M a b aiColor) \<le> Finite (v m)) \<and>
        (\<exists>m\<in>set ms. Finite (v m) = fst (minLoop srt rnd gm d ms M a b aiColor))) \<and>
     (fst (minLoop srt rnd gm d ms M a b aiColor) \<le> a \<longrightarrow>
        (\<exists>m\<in>set ms. Finite (v m) \<le> fst (minLoop srt rnd gm d ms M a b aiColor)))"
proof (induction ms arbitrary: rnd M b)
  case Nil
  then show ?case by auto
next
  case (Cons m ms)
  obtain r rnd1 where call: "minimax srt rnd (switchTurn (executeMove m gm)) d a b True aiColor = (r, rnd1)"
    by (cases "minimax srt rnd (switchTurn (executeMove m gm)) d a b True aiColor")
  have fb: "fishburn a b (v m) r" using child[where rnd = rnd and m = m, OF Cons.prems(2)] call by simp
  show ?case
  proof (cases "min b r \<le> a")
    case True
    then have ra: "r \<le> a" using Cons.prems(2) by (auto simp: min_def split: if_splits)
    have res: "fst (minLoop srt rnd gm d (m # ms) M a b aiColor) = min M r"
      using call True by (simp add: score_min_eq score_le_eq Let_def)
    have Mr: "min M r = r" using ra Cons.prems by (auto simp: min_def)
    have "Finite (v m) \<le> r" using fb ra by (simp add: fishburn_def)
    then show ?thesis using res Mr ra Cons.prems by auto
  next
    case False
    then have ar: "a < r" and ab: "a < min b r" by (auto simp: min_def not_le split: if_splits)
    let ?R = "fst (minLoop srt rnd1 gm d ms (min M r) a (min b r) aiColor)"
    have res: "fst (minLoop srt rnd gm d (m # ms) M a b aiColor) = ?R"
      using call False by (simp add: score_min_eq score_le_eq Let_def)
    have Mb: "min b r \<le> min M r" using Cons.prems(1) by (auto simp: min_def)
    note IH = Cons.IH[OF Mb ab, of rnd1]
    have vm_ge: "r \<le> Finite (v m)" using fb ar by (auto simp: fishburn_def not_le)
    have vm_eq: "r < b \<Longrightarrow> r = Finite (v m)" using fb ar by (auto simp: fishburn_def)
    have le: "?R \<le> min M r" using IH by simp
    have c1: "?R \<le> M" using le by (auto simp: min_def split: if_splits)
    have rR: "?R \<le> r" using le by (auto simp: min_def split: if_splits)
    have c2: "b \<le> ?R \<longrightarrow> (\<forall>x\<in>set (m # ms). ?R \<le> Finite (v x))"
    proof
      assume Rb: "b \<le> ?R"
      then have "b \<le> r" using rR by simp
      then have "min b r = b" by (simp add: min_def)
      with IH Rb have "\<forall>x\<in>set ms. ?R \<le> Finite (v x)" by simp
      moreover have "?R \<le> Finite (v m)" using vm_ge rR by simp
      ultimately show "\<forall>x\<in>set (m # ms). ?R \<le> Finite (v x)" by simp
    qed
    have c3: "a < ?R \<and> ?R < b \<longrightarrow>
        (\<forall>x\<in>set (m # ms). ?R \<le> Finite (v x)) \<and> (\<exists>x\<in>set (m # ms). Finite (v x) = ?R)"
    proof
      assume A: "a < ?R \<and> ?R < b"
      show "(\<forall>x\<in>set (m # ms). ?R \<le> Finite (v x)) \<and> (\<exists>x\<in>set (m # ms). Finite (v x) = ?R)"
      proof (cases "min b r \<le> ?R")
        case True
        then have "\<forall>x\<in>set ms. ?R \<le> Finite (v x)" using IH by simp
        moreover have "min b r = r" using True A by (auto simp: min_def split: if_splits)
        then have "?R = r" and "r < b" using True rR A by (auto simp: min_def split: if_splits)
        then have "Finite (v m) = ?R" using vm_eq by simp
        ultimately show ?thesis by auto
      next
        case False
        then have lt: "?R < min b r" by (simp add: not_le)
        with A IH have "(\<forall>x\<in>set ms. ?R \<le> Finite (v x)) \<and> (\<exists>x\<in>set ms. Finite (v x) = ?R)" by simp
        moreover have "?R \<le> Finite (v m)" using vm_ge rR by simp
        ultimately show ?thesis by auto
      qed
    qed
    have c4: "?R \<le> a \<longrightarrow> (\<exists>x\<in>set (m # ms). Finite (v x) \<le> ?R)"
      using IH by auto
    show ?thesis using res c1 c2 c3 c4 by simp
  qed
qed

lemma set_sortMoves: "sortPermutes srt \<Longrightarrow> set (fst (sortMoves srt rnd moves gm)) = set moves"
  by (simp add: sortPermutes_def sortMoves_def)

lemma minimax_fishburn:
  assumes perm: "sortPermutes srt"
  shows "a < b \<Longrightarrow>
    fishburn a b (exactValue gm d isMax aiColor) (fst (minimax srt rnd gm d a b isMax aiColor))"
proof (induction d arbitrary: rnd gm a b isMax)
  case 0
  then show ?case by (simp add: fishburn_def)
next
  case (Suc d)
  let ?moves = "getAllValidMovesForCurrentPlayer gm"
  show ?case
  proof (cases "?moves = []")
    case True
    then show ?thesis by (simp add: fishburn_def)
  next
    case False
    obtain sm rnd1 where s: "sortMoves srt rnd ?moves gm = (sm, rnd1)"
      by (cases "sortMoves srt rnd ?moves gm")
    have sset: "set sm = set ?moves" using set_sortMoves[OF perm, of rnd ?moves gm] s by simp
    then have ne: "set sm \<noteq> {}" using False by simp
    show ?thesis
    proof (cases isMax)
      case True
      let ?v = "\<lambda>m. exactValue (switchTurn (executeMove m gm)) d False aiColor"
      let ?R = "fst (maxLoop srt rnd1 gm d sm NegInfinity a b aiColor)"
      have res: "fst (minimax srt rnd gm (Suc d) a b isMax aiColor) = ?R"
        using False s True by (simp add: Let_def)
      have val: "exactValue gm (Suc d) isMax aiColor = Max (?v ` set sm)"
        using False True sset by (simp add: Let_def)
      have fin: "finite (?v ` set sm)" and nee: "?v ` set sm \<noteq> {}" using ne by auto
      have L: "NegInfinity \<le> ?R \<and>
        (?R \<le> a \<longrightarrow> (\<forall>m\<in>set sm. Finite (?v m) \<le> ?R)) \<and>
        (a < ?R \<and> ?R < b \<longrightarrow> (\<forall>m\<in>set sm. Finite (?v m) \<le> ?R) \<and> (\<exists>m\<in>set sm. Finite (?v m) = ?R)) \<and>
        (b \<le> ?R \<longrightarrow> (\<exists>m\<in>set sm. ?R \<le> Finite (?v m)))"
        by (rule maxLoop_bounds[where v = ?v]) (use Suc in auto)
      obtain m0 where m0: "m0 \<in> set sm" "?v m0 = Max (?v ` set sm)"
        using Max_in[OF fin nee] by auto
      have mx: "\<And>m. m \<in> set sm \<Longrightarrow> ?v m \<le> Max (?v ` set sm)" using fin by simp
      have f1: "?R \<le> a \<longrightarrow> Finite (Max (?v ` set sm)) \<le> ?R" using L m0 by metis
      have f2: "a < ?R \<and> ?R < b \<longrightarrow> ?R = Finite (Max (?v ` set sm))"
      proof
        assume A: "a < ?R \<and> ?R < b"
        with L obtain m1 where m1: "m1 \<in> set sm" "Finite (?v m1) = ?R" by blast
        from A L m0 have "Finite (?v m0) \<le> ?R" by blast
        with m1 have "?v m0 \<le> ?v m1" by (metis Finite_le_iff)
        with mx[OF m1(1)] m0 have "?v m1 = Max (?v ` set sm)" by simp
        with m1 show "?R = Finite (Max (?v ` set sm))" by simp
      qed
      have f3: "b \<le> ?R \<longrightarrow> ?R \<le> Finite (Max (?v ` set sm))"
      proof
        assume "b \<le> ?R"
        with L obtain m1 where m1: "m1 \<in> set sm" "?R \<le> Finite (?v m1)" by blast
        have "Finite (?v m1) \<le> Finite (Max (?v ` set sm))" using mx[OF m1(1)] by simp
        with m1 show "?R \<le> Finite (Max (?v ` set sm))" by (rule_tac order_trans)
      qed
      show ?thesis using res val f1 f2 f3 by (simp add: fishburn_def)
    next
      case isMin: False
      let ?v = "\<lambda>m. exactValue (switchTurn (executeMove m gm)) d True aiColor"
      let ?R = "fst (minLoop srt rnd1 gm d sm PosInfinity a b aiColor)"
      have res: "fst (minimax srt rnd gm (Suc d) a b isMax aiColor) = ?R"
        using False s isMin by (simp add: Let_def)
      have val: "exactValue gm (Suc d) isMax aiColor = Min (?v ` set sm)"
        using False isMin sset by (simp add: Let_def)
      have fin: "finite (?v ` set sm)" and nee: "?v ` set sm \<noteq> {}" using ne by auto
      have L: "?R \<le> PosInfinity \<and>
        (b \<le> ?R \<longrightarrow> (\<forall>m\<in>set sm. ?R \<le> Finite (?v m))) \<and>
        (a < ?R \<and> ?R < b \<longrightarrow> (\<forall>m\<in>set sm. ?R \<le> Finite (?v m)) \<and> (\<exists>m\<in>set sm. Finite (?v m) = ?R)) \<and>
        (?R \<le> a \<longrightarrow> (\<exists>m\<in>set sm. Finite (?v m) \<le> ?R))"
        by (rule minLoop_bounds[where v = ?v]) (use Suc in auto)
      obtain m0 where m0: "m0 \<in> set sm" "?v m0 = Min (?v ` set sm)"
        using Min_in[OF fin nee] by auto
      have mn: "\<And>m. m \<in> set sm \<Longrightarrow> Min (?v ` set sm) \<le> ?v m" using fin by simp
      have f3: "b \<le> ?R \<longrightarrow> ?R \<le> Finite (Min (?v ` set sm))" using L m0 by metis
      have f2: "a < ?R \<and> ?R < b \<longrightarrow> ?R = Finite (Min (?v ` set sm))"
      proof
        assume A: "a < ?R \<and> ?R < b"
        with L obtain m1 where m1: "m1 \<in> set sm" "Finite (?v m1) = ?R" by blast
        from A L m0 have "?R \<le> Finite (?v m0)" by blast
        with m1 have "?v m1 \<le> ?v m0" by (metis Finite_le_iff)
        with mn[OF m1(1)] m0 have "?v m1 = Min (?v ` set sm)" by simp
        with m1 show "?R = Finite (Min (?v ` set sm))" by simp
      qed
      have f1: "?R \<le> a \<longrightarrow> Finite (Min (?v ` set sm)) \<le> ?R"
      proof
        assume "?R \<le> a"
        with L obtain m1 where m1: "m1 \<in> set sm" "Finite (?v m1) \<le> ?R" by blast
        have "Finite (Min (?v ` set sm)) \<le> Finite (?v m1)" using mn[OF m1(1)] by simp
        with m1 show "Finite (Min (?v ` set sm)) \<le> ?R" by (rule_tac order_trans)
      qed
      show ?thesis using res val f1 f2 f3 by (simp add: fishburn_def)
    qed
  qed
qed

lemma minimax_exact:
  assumes "sortPermutes srt"
  shows "fst (minimax srt rnd gm d NegInfinity PosInfinity isMax aiColor) = Finite (exactValue gm d isMax aiColor)"
proof -
  let ?r = "fst (minimax srt rnd gm d NegInfinity PosInfinity isMax aiColor)"
  have fb: "fishburn NegInfinity PosInfinity (exactValue gm d isMax aiColor) ?r"
    by (rule minimax_fishburn[OF assms]) simp
  have "?r \<noteq> NegInfinity" using fb by (auto simp: fishburn_def less_eq_score_def)
  moreover have "?r \<noteq> PosInfinity" using fb by (auto simp: fishburn_def less_eq_score_def)
  ultimately have "NegInfinity < ?r \<and> ?r < PosInfinity"
    by (cases ?r) (auto simp: less_score_def)
  with fb show ?thesis by (simp add: fishburn_def)
qed

lemma evaluateMoves_exact:
  assumes perm: "sortPermutes srt"
  shows "\<forall>n. clk n - startTime \<le> timeLimit \<Longrightarrow>
    fst (evaluateMoves srt gm d aiColor startTime scored rnd clk) =
    map (\<lambda>sm. (fst sm, Finite (exactValue (switchTurn (executeMove (fst sm) gm)) d False aiColor))) scored"
proof (induction scored arbitrary: rnd clk)
  case Nil
  then show ?case by simp
next
  case (Cons sm scored)
  have now: "\<not> clk 0 - startTime > timeLimit" using Cons.prems by (simp add: not_less)
  have later: "\<forall>n. rest clk n - startTime \<le> timeLimit" using Cons.prems by (simp add: rest_def)
  obtain r rnd1 where call:
    "minimax srt rnd (switchTurn (executeMove (fst sm) gm)) d NegInfinity PosInfinity False aiColor = (r, rnd1)"
    by (cases "minimax srt rnd (switchTurn (executeMove (fst sm) gm)) d NegInfinity PosInfinity False aiColor")
  have r: "r = Finite (exactValue (switchTurn (executeMove (fst sm) gm)) d False aiColor)"
    using minimax_exact[OF perm, of rnd "switchTurn (executeMove (fst sm) gm)" d False aiColor] call by simp
  obtain more1 rnd2 clk1 where recur:
    "evaluateMoves srt gm d aiColor startTime scored rnd1 (rest clk) = (more1, rnd2, clk1)"
    by (cases "evaluateMoves srt gm d aiColor startTime scored rnd1 (rest clk)") auto
  show ?case
    using now call r recur Cons.IH[OF later, of rnd1] by simp
qed

lemma evaluateMoves_clock:
  "\<forall>n. clk n - startTime \<le> timeLimit \<Longrightarrow>
   evaluateMoves srt gm d aiColor startTime scored rnd clk = (res, rnd', clk') \<Longrightarrow>
   \<forall>n. clk' n - startTime \<le> timeLimit"
proof (induction scored arbitrary: rnd clk res rnd' clk')
  case Nil
  then show ?case by simp
next
  case (Cons sm scored)
  have now: "\<not> clk 0 - startTime > timeLimit" using Cons.prems(1) by (simp add: not_less)
  have later: "\<forall>n. rest clk n - startTime \<le> timeLimit" using Cons.prems(1) by (simp add: rest_def)
  obtain r rnd1 where call:
    "minimax srt rnd (switchTurn (executeMove (fst sm) gm)) d NegInfinity PosInfinity False aiColor = (r, rnd1)"
    by (cases "minimax srt rnd (switchTurn (executeMove (fst sm) gm)) d NegInfinity PosInfinity False aiColor")
  obtain more1 rnd2 clk1 where recur:
    "evaluateMoves srt gm d aiColor startTime scored rnd1 (rest clk) = (more1, rnd2, clk1)"
    by (cases "evaluateMoves srt gm d aiColor startTime scored rnd1 (rest clk)") auto
  have "clk' = clk1" using Cons.prems(2) now call recur by simp
  with Cons.IH[OF later recur] show ?case by simp
qed

lemma set_insertScored: "set (insertScored v ws) = insert v (set ws)"
  by (induction ws) auto

lemma set_foldl_insertScored:
  "set (foldl (\<lambda>placed v. insertScored v placed) acc xs) = set acc \<union> set xs"
  by (induction xs arbitrary: acc) (auto simp: set_insertScored)

lemma set_sortByScore: "set (sortByScore xs) = set xs"
  by (simp add: sortByScore_def set_foldl_insertScored)

lemma descending_insertScored:
  "sorted_wrt (\<lambda>x y. snd y \<le> snd x) ws \<Longrightarrow> sorted_wrt (\<lambda>x y. snd y \<le> snd x) (insertScored v ws)"
proof (induction ws)
  case Nil
  then show ?case by simp
next
  case (Cons w ws)
  show ?case
  proof (cases "score_less (snd w) (snd v)")
    case True
    then have "snd w \<le> snd v" by (simp add: less_score_def[symmetric])
    with True Cons.prems show ?thesis by (auto intro: order_trans)
  next
    case False
    then have "snd v \<le> snd w" by (simp add: less_eq_score_def)
    with False Cons show ?thesis by (auto simp: set_insertScored)
  qed
qed

lemma descending_foldl_insertScored:
  "sorted_wrt (\<lambda>x y. snd y \<le> snd x) acc \<Longrightarrow>
   sorted_wrt (\<lambda>x y. snd y \<le> snd x) (foldl (\<lambda>placed v. insertScored v placed) acc xs)"
  by (induction xs arbitrary: acc) (simp_all add: descending_insertScored)

lemma descending_sortByScore: "sorted_wrt (\<lambda>x y. snd y \<le> snd x) (sortByScore xs)"
  by (simp add: sortByScore_def descending_foldl_insertScored)

lemma sortByScore_head_is_top:
  assumes "sortByScore xs = best # others"
  shows "best \<in> set xs \<and> (\<forall>x\<in>set xs. snd x \<le> snd best)"
proof -
  have s: "set xs = insert best (set others)" using set_sortByScore[of xs] assms by simp
  have "sorted_wrt (\<lambda>x y. snd y \<le> snd x) (best # others)"
    using descending_sortByScore[of xs] assms by simp
  then have "\<forall>x\<in>set others. snd x \<le> snd best" by simp
  with s show ?thesis by auto
qed

lemma sortByScore_nonempty: "xs \<noteq> [] \<Longrightarrow> sortByScore xs \<noteq> []"
  using set_sortByScore[of xs] by (cases "sortByScore xs") auto

lemma top_score_is_bestExact:
  assumes ex: "exactAt gm aiColor depth scored" and mv: "fst ` set scored = set moves"
    and top: "best \<in> set scored" "\<forall>x\<in>set scored. snd x \<le> snd best"
  shows "snd best = Finite (bestExact gm aiColor moves depth)"
    and "exactScore gm aiColor depth (fst best) = bestExact gm aiColor moves depth"
    and "fst best \<in> set moves"
proof -
  let ?f = "exactScore gm aiColor depth"
  have b: "snd best = Finite (?f (fst best))" using ex top(1) by (simp add: exactAt_def)
  have mem: "fst best \<in> set moves" using top(1) mv by auto
  have ne: "set moves \<noteq> {}" using mem by auto
  have all: "\<forall>m\<in>set moves. ?f m \<le> ?f (fst best)"
  proof
    fix m assume "m \<in> set moves"
    then have "m \<in> fst ` set scored" using mv by simp
    then obtain x where x: "x \<in> set scored" "fst x = m" by auto
    then have "snd x = Finite (?f m)" using ex by (auto simp: exactAt_def)
    with top(2) x b show "?f m \<le> ?f (fst best)" by (metis Finite_le_iff)
  qed
  have "Max (?f ` set moves) = ?f (fst best)"
    by (rule Max_eqI) (use all mem in auto)
  then show e: "?f (fst best) = bestExact gm aiColor moves depth" by (simp add: bestExact_def)
  with b show "snd best = Finite (bestExact gm aiColor moves depth)" by simp
  show "fst best \<in> set moves" by (rule mem)
qed

lemma deepen_exact:
  assumes perm: "sortPermutes srt" and clock: "\<forall>n. clk n - startTime \<le> timeLimit"
    and mv: "fst ` set scored = set moves" and ne: "scored \<noteq> []"
    and base: "depths = [] \<longrightarrow> exactAt gm aiColor reached scored"
  shows "\<exists>res. deepen srt gm aiColor startTime depths scored rnd clk = Some res \<and>
           fst ` set res = set moves \<and> res \<noteq> [] \<and>
           exactAt gm aiColor (finalDepth gm aiColor moves depths reached) res"
  using clock mv ne base
proof (induction depths arbitrary: scored rnd clk reached)
  case Nil
  then show ?case by simp
next
  case (Cons depth depths)
  have now: "\<not> clk 0 - startTime > timeLimit" using Cons.prems(1) by (simp add: not_less)
  have later: "\<forall>n. rest clk n - startTime \<le> timeLimit" using Cons.prems(1) by (simp add: rest_def)
  obtain sc1 rnd1 clk1 where ev:
    "evaluateMoves srt gm (depth - 1) aiColor startTime scored rnd (rest clk) = (sc1, rnd1, clk1)"
    by (cases "evaluateMoves srt gm (depth - 1) aiColor startTime scored rnd (rest clk)") auto
  have sc1: "sc1 = map (\<lambda>sm. (fst sm, Finite (exactScore gm aiColor depth (fst sm)))) scored"
    using evaluateMoves_exact[OF perm later, of gm "depth - 1" aiColor scored rnd] ev
    by (simp add: exactScore_def)
  have ex1: "exactAt gm aiColor depth sc1" by (auto simp: sc1 exactAt_def)
  have mv1: "fst ` set sc1 = set moves" using Cons.prems(2) by (force simp: sc1 image_iff)
  have ne1: "sc1 \<noteq> []" using Cons.prems(3) by (simp add: sc1)
  have clk1: "\<forall>n. clk1 n - startTime \<le> timeLimit"
    by (rule evaluateMoves_clock[OF later ev])
  obtain best others where so: "sortByScore sc1 = best # others"
    using sortByScore_nonempty[OF ne1] by (cases "sortByScore sc1") auto
  have sset: "set (best # others) = set sc1" using set_sortByScore[of sc1] so by simp
  have ex2: "exactAt gm aiColor depth (best # others)" using ex1 sset by (simp add: exactAt_def)
  have mv2: "fst ` set (best # others) = set moves" using mv1 sset by simp
  have top: "best \<in> set sc1 \<and> (\<forall>x\<in>set sc1. snd x \<le> snd best)"
    by (rule sortByScore_head_is_top[OF so])
  have sb: "snd best = Finite (bestExact gm aiColor moves depth)"
    using top_score_is_bestExact(1)[OF ex1 mv1] top by blast
  show ?case
  proof (cases "\<bar>bestExact gm aiColor moves depth\<bar> > 10000")
    case True
    then show ?thesis using now ev so sb ex2 mv2 by simp
  next
    case False
    have "\<exists>res. deepen srt gm aiColor startTime depths (best # others) rnd1 clk1 = Some res \<and>
           fst ` set res = set moves \<and> res \<noteq> [] \<and>
           exactAt gm aiColor (finalDepth gm aiColor moves depths depth) res"
      by (rule Cons.IH[OF clk1 mv2]) (use ex2 in auto)
    then show ?thesis using now ev so sb False by simp
  qed
qed

lemma selectMoveWithRandomness_top:
  assumes ex: "exactAt gm aiColor depth scored" and mv: "fst ` set scored = set moves"
    and ne: "scored \<noteq> []" and pick: "0 \<le> fst pick"
  shows "\<exists>m. selectMoveWithRandomness 0 pick scored = Some m \<and> m \<in> set moves \<and>
             exactScore gm aiColor depth m = bestExact gm aiColor moves depth"
proof -
  obtain best others where so: "sortByScore scored = best # others"
    using sortByScore_nonempty[OF ne] by (cases "sortByScore scored") auto
  have top: "best \<in> set scored \<and> (\<forall>x\<in>set scored. snd x \<le> snd best)"
    by (rule sortByScore_head_is_top[OF so])
  have sel: "selectMoveWithRandomness 0 pick scored = Some (fst best)"
    using pick so by (simp add: selectMoveWithRandomness_def Let_def at_index_def not_less[symmetric])
  show ?thesis
    using sel top_score_is_bestExact(2,3)[OF ex mv] top by blast
qed

lemma iterativeDeepening_top:
  assumes perm: "sortPermutes srt" and clock: "neverTimesOut clk" and pick: "0 \<le> fst pick"
    and ne: "moves \<noteq> []"
  shows "\<exists>m. iterativeDeepening srt 0 rnd clk pick gm moves aiColor = Some m \<and> m \<in> set moves \<and>
             exactScore gm aiColor (finalDepth gm aiColor moves [1, 2, 3, 4, 5, 6] 0) m =
             bestExact gm aiColor moves (finalDepth gm aiColor moves [1, 2, 3, 4, 5, 6] 0)"
proof -
  obtain sm rnd1 where s: "sortMoves srt rnd moves gm = (sm, rnd1)"
    by (cases "sortMoves srt rnd moves gm")
  have sset: "set sm = set moves" using set_sortMoves[OF perm, of rnd moves gm] s by simp
  let ?scored = "map (\<lambda>m. (m, NegInfinity)) sm"
  have mv: "fst ` set ?scored = set moves" using sset by (force simp: image_iff)
  have sne: "?scored \<noteq> []" using sset ne by auto
  have later: "\<forall>n. rest clk n - clk 0 \<le> timeLimit" using clock by (simp add: neverTimesOut_def rest_def)
  obtain res where d: "deepen srt gm aiColor (clk 0) [1, 2, 3, 4, 5, 6] ?scored rnd1 (rest clk) = Some res"
    and rmv: "fst ` set res = set moves" and rne: "res \<noteq> []"
    and rex: "exactAt gm aiColor (finalDepth gm aiColor moves [1, 2, 3, 4, 5, 6] 0) res"
    using deepen_exact[OF perm later mv sne, of "[1, 2, 3, 4, 5, 6]" gm aiColor 0 rnd1] by auto
  show ?thesis
    using selectMoveWithRandomness_top[OF rex rmv rne pick] s d
    by (simp add: iterativeDeepening_def Let_def)
qed

lemma moves_nonempty_iff:
  "(getAllValidMovesForCurrentPlayer gm \<noteq> []) = hasValidMove gm"
  by (auto simp: getAllValidMovesForCurrentPlayer_def hasValidMove_def getCurrentTurnPieces_def
      getPiecesByColor_def list_ex_iff)

lemma worker_hard_in_topMoves:
  assumes perm: "sortPermutes srt" and clock: "neverTimesOut clk" and pick: "0 \<le> fst pick"
    and turn: "currentTurn gm = aiColor" and legal: "hasValidMove gm"
  shows "\<exists>m \<in> set (topMoves gm aiColor). worker_makeMove srt 0 rnd clk pick (toJSON gm) aiColor HARD = Some m"
proof -
  let ?moves = "getAllValidMovesForCurrentPlayer gm"
  have ne: "?moves \<noteq> []" using legal moves_nonempty_iff by simp
  obtain m where m: "iterativeDeepening srt 0 rnd clk pick gm ?moves aiColor = Some m" "m \<in> set ?moves"
    "exactScore gm aiColor (finalDepth gm aiColor ?moves [1, 2, 3, 4, 5, 6] 0) m =
     bestExact gm aiColor ?moves (finalDepth gm aiColor ?moves [1, 2, 3, 4, 5, 6] 0)"
    using iterativeDeepening_top[OF perm clock pick ne] by blast
  have "worker_makeMove srt 0 rnd clk pick (toJSON gm) aiColor HARD = Some m"
    using m(1) turn ne by (simp add: worker_makeMove_def GameModel_roundtrip Let_def)
  moreover have "m \<in> set (topMoves gm aiColor)" using m(2,3) by (simp add: topMoves_def Let_def)
  ultimately show ?thesis by blast
qed


section \<open>Worker AI: the V8 sort permutes\<close>

lemma extendRun_splits:
  "extendRun cmp desc rnd prev xs = (run, remaining, rnd') \<Longrightarrow> run @ remaining = xs"
proof (induction xs arbitrary: rnd prev run remaining rnd')
  case Nil
  then show ?case by simp
next
  case (Cons x xs)
  obtain order rnd1 where c: "cmp rnd x prev = (order, rnd1)" by (cases "cmp rnd x prev")
  show ?case
  proof (cases "if desc then order \<ge> 0 else order < 0")
    case True
    then have stop: "(if desc then order \<ge> 0 else order < 0) = True" by simp
    show ?thesis using Cons.prems c by (simp add: stop)
  next
    case False
    then have go: "(if desc then order \<ge> 0 else order < 0) = False" by simp
    obtain r2 rem2 rnd2 where e: "extendRun cmp desc rnd1 x xs = (r2, rem2, rnd2)"
      by (cases "extendRun cmp desc rnd1 x xs") auto
    have "r2 @ rem2 = xs" by (rule Cons.IH[OF e])
    moreover have "run = x # r2" "remaining = rem2" using Cons.prems c e by (simp_all add: go)
    ultimately show ?thesis by simp
  qed
qed

lemma set_countAndMakeRun:
  assumes "countAndMakeRun cmp rnd xs = (run, remaining, rnd')"
  shows "set run \<union> set remaining = set xs"
proof (cases xs)
  case Nil
  with assms show ?thesis by (simp add: countAndMakeRun_def)
next
  case xs: (Cons a ys)
  show ?thesis
  proof (cases ys)
    case Nil
    with xs assms show ?thesis by (auto simp: countAndMakeRun_def)
  next
    case (Cons b zs)
    obtain order rnd1 where c: "cmp rnd b a = (order, rnd1)" by (cases "cmp rnd b a")
    obtain r2 rem2 rnd2 where e: "extendRun cmp (order < 0) rnd1 b zs = (r2, rem2, rnd2)"
      by (cases "extendRun cmp (order < 0) rnd1 b zs") auto
    have "r2 @ rem2 = zs" by (rule extendRun_splits[OF e])
    then have z: "set zs = set r2 \<union> set rem2" by (metis set_append)
    have res: "run = (if order < 0 then rev (a # b # r2) else a # b # r2)" "remaining = rem2"
      using assms xs Cons c e by (simp_all add: countAndMakeRun_def Let_def)
    have "set run = insert a (insert b (set r2))" unfolding res(1) by (cases "order < 0") auto
    with res(2) z xs Cons show ?thesis by auto
  qed
qed

lemma set_binaryInsertionSort:
  "set (fst (binaryInsertionSort cmp rnd placed xs)) = set placed \<union> set xs"
proof (induction xs arbitrary: rnd placed)
  case Nil
  then show ?case by simp
next
  case (Cons pivot xs)
  obtain left rnd1 where f: "findInsertionPoint cmp rnd pivot placed 0 (length placed) = (left, rnd1)"
    by (cases "findInsertionPoint cmp rnd pivot placed 0 (length placed)")
  have "set (take left placed) \<union> set (drop left placed) = set placed"
    by (metis append_take_drop_id set_append)
  then have "set (take left placed @ pivot # drop left placed) = insert pivot (set placed)"
    by auto
  then show ?case using f Cons.IH[of rnd1 "take left placed @ pivot # drop left placed"] by simp
qed

lemma sortPermutes_v8Sort:
  assumes "sortPermutes long"
  shows "sortPermutes (v8Sort long)"
  unfolding sortPermutes_def
proof (intro allI)
  fix cmp rnd and xs :: "'a list"
  obtain run remaining rnd1 where c: "countAndMakeRun cmp rnd xs = (run, remaining, rnd1)"
    by (cases "countAndMakeRun cmp rnd xs") auto
  have "set run \<union> set remaining = set xs" by (rule set_countAndMakeRun[OF c])
  then show "set (fst (v8Sort long cmp rnd xs)) = set xs"
    using assms c by (simp add: v8Sort_def sortPermutes_def set_binaryInsertionSort)
qed

lemma sortPermutes_leaveAsIs: "sortPermutes leaveAsIs"
  by (simp add: sortPermutes_def leaveAsIs_def)



section \<open>Worker AI: what the hard tier depends on\<close>

text \<open>
  Claim C7, as stated, fails. The probability of the random pick is zero in all four
  runs, and the engine's sort is V8's. In \<open>tieState\<close>, with the clock standing still,
  the run whose comparator draws 0.1 every time returns the right soldier's capture of
  the general, and the run that draws 0.9 returns the left soldier's: both moves have
  the same score. In \<open>lateState\<close>, with the same draws of 0.9, the run whose clock
  stands still returns the capture of the general, and the run whose clock shows the
  time limit passed returns the capture of the soldier.
\<close>

theorem worker_hard_tier_depends_on_sort_draws_and_clock:
  "worker_makeMove (v8Sort leaveAsIs) 0 drawsLow clockFrozen (1/2, 0) (toJSON tieState) RED HARD =
     Some soldierRightCaptures \<and>
   worker_makeMove (v8Sort leaveAsIs) 0 drawsHigh clockFrozen (1/2, 0) (toJSON tieState) RED HARD =
     Some soldierLeftCaptures \<and>
   soldierRightCaptures \<noteq> soldierLeftCaptures \<and>
   worker_makeMove (v8Sort leaveAsIs) 0 drawsHigh clockFrozen (1/2, 0) (toJSON lateState) RED HARD =
     Some soldierLeftCaptures \<and>
   worker_makeMove (v8Sort leaveAsIs) 0 drawsHigh clockLate (1/2, 0) (toJSON lateState) RED HARD =
     Some soldierTakesSoldier \<and>
   soldierLeftCaptures \<noteq> soldierTakesSoldier"
proof -
  have "worker_makeMove (v8Sort leaveAsIs) 0 drawsLow clockFrozen (1/2, 0) (toJSON tieState) RED HARD =
      Some soldierRightCaptures"
    by code_simp
  moreover
  have "worker_makeMove (v8Sort leaveAsIs) 0 drawsHigh clockFrozen (1/2, 0) (toJSON tieState) RED HARD =
      Some soldierLeftCaptures"
    by code_simp
  moreover
  have "worker_makeMove (v8Sort leaveAsIs) 0 drawsHigh clockFrozen (1/2, 0) (toJSON lateState) RED HARD =
      Some soldierLeftCaptures"
    by code_simp
  moreover
  have "worker_makeMove (v8Sort leaveAsIs) 0 drawsHigh clockLate (1/2, 0) (toJSON lateState) RED HARD =
      Some soldierTakesSoldier"
    by code_simp
  moreover have "soldierRightCaptures \<noteq> soldierLeftCaptures" "soldierLeftCaptures \<noteq> soldierTakesSoldier"
    by (simp_all add: soldierLeftCaptures_def soldierRightCaptures_def soldierTakesSoldier_def newPiece_def)
  ultimately show ?thesis by simp
qed

text \<open>
  Claim C7, amended. With the probability of the random pick set to zero, on an engine
  whose sort permutes its array, and as long as the time limit is not reached, every
  run of the hard tier on a state in which it is the searching side's turn and a legal
  move exists returns one of the top moves of that state: a legal move whose exact
  minimax score, at the depth where the deepening stops, is the best over all legal
  moves. So two runs on the same state, whatever the random values and clock readings
  of each, return moves of the same, best score, and the same move when only one move
  has that score.
\<close>

theorem worker_hard_tier_returns_top_scoring_move:
  assumes "sortPermutes srt" and "neverTimesOut clk" and "neverTimesOut clk'"
    and "0 \<le> fst pick" and "0 \<le> fst pick'"
    and "currentTurn gm = aiColor" and "hasValidMove gm"
  shows "\<exists>m m'. worker_makeMove srt 0 rnd clk pick (toJSON gm) aiColor HARD = Some m \<and>
                worker_makeMove srt 0 rnd' clk' pick' (toJSON gm) aiColor HARD = Some m' \<and>
                m \<in> set (topMoves gm aiColor) \<and> m' \<in> set (topMoves gm aiColor) \<and>
                (length (remdups (topMoves gm aiColor)) = 1 \<longrightarrow> m = m')"
proof -
  obtain m where m: "m \<in> set (topMoves gm aiColor)"
    "worker_makeMove srt 0 rnd clk pick (toJSON gm) aiColor HARD = Some m"
    using worker_hard_in_topMoves[OF assms(1,2,4,6,7)] by blast
  obtain m' where m': "m' \<in> set (topMoves gm aiColor)"
    "worker_makeMove srt 0 rnd' clk' pick' (toJSON gm) aiColor HARD = Some m'"
    using worker_hard_in_topMoves[OF assms(1,3,5,6,7)] by blast
  have "length (remdups (topMoves gm aiColor)) = 1 \<longrightarrow> m = m'"
  proof
    assume "length (remdups (topMoves gm aiColor)) = 1"
    then have "card (set (topMoves gm aiColor)) = 1" by (simp add: length_remdups_card_conv)
    then obtain x where "set (topMoves gm aiColor) = {x}" by (auto simp: card_1_singleton_iff)
    with m(1) m'(1) show "m = m'" by simp
  qed
  with m m' show ?thesis by blast
qed




text \<open>
  In \<open>lateState\<close> the capture of the general is the only top move, so runs with
  different random values return the same move.
\<close>

lemma lateState_moves:
  "getAllValidMovesForCurrentPlayer lateState = [generalSteps, soldierTakesSoldier, soldierLeftCaptures]"
  by code_simp

lemma lateState_scores:
  "exactScore lateState RED 1 generalSteps = 30835"
  "exactScore lateState RED 1 soldierTakesSoldier = 6080"
  "exactScore lateState RED 1 soldierLeftCaptures = 300890"
  by code_simp+

lemma lateState_topMoves: "topMoves lateState RED = [soldierLeftCaptures]"
proof -
  have best: "bestExact lateState RED [generalSteps, soldierTakesSoldier, soldierLeftCaptures] 1 = 300890"
    by (simp del: One_nat_def add: bestExact_def lateState_scores)
  have depth: "finalDepth lateState RED [generalSteps, soldierTakesSoldier, soldierLeftCaptures]
      [1, 2, 3, 4, 5, 6] 0 = 1"
    by (simp del: One_nat_def add: best)
  show ?thesis
    by (simp del: One_nat_def add: topMoves_def Let_def lateState_moves depth best lateState_scores)
qed

theorem worker_hard_tier_returns_top_scoring_move_witness:
  "worker_makeMove (v8Sort leaveAsIs) 0 drawsLow clockFrozen (1/2, 0) (toJSON lateState) RED HARD =
   worker_makeMove (v8Sort leaveAsIs) 0 drawsHigh clockFrozen (1/100, 3/4) (toJSON lateState) RED HARD"
proof -
  have perm: "sortPermutes (v8Sort (leaveAsIs :: Move engine_sort))"
    by (rule sortPermutes_v8Sort[OF sortPermutes_leaveAsIs])
  have clock: "neverTimesOut clockFrozen"
    by (simp add: neverTimesOut_def clockFrozen_def timeLimit_def)
  have pick: "(0::real) \<le> fst (1/2, 0::real)" "(0::real) \<le> fst (1/100, 3/4::real)" by simp_all
  have turn: "currentTurn lateState = RED" by code_simp
  have legal: "hasValidMove lateState" by code_simp
  have one: "length (remdups (topMoves lateState RED)) = 1" by (simp add: lateState_topMoves)
  from worker_hard_tier_returns_top_scoring_move[OF perm clock clock pick turn legal,
      of drawsLow drawsHigh] one
  show ?thesis by auto
qed

text \<open>The worker returns a move under the same conditions as the main-thread AI.\<close>

lemma selectMoveWithRandomness_Some:
  assumes "scored \<noteq> []" "0 \<le> snd pick" "snd pick < 1"
  shows "\<exists>m. selectMoveWithRandomness p pick scored = Some m"
proof -
  let ?sorted = "sortByScore scored"
  let ?cands = "take (min 5 (length ?sorted)) ?sorted"
  have ne: "?sorted \<noteq> []" by (rule sortByScore_nonempty[OF assms(1)])
  then have z: "\<exists>m. at_index ?sorted 0 = Some m" by (simp add: at_index_def)
  show ?thesis
  proof (cases "fst pick < p \<and> length ?cands > 1")
    case False
    with z show ?thesis by (auto simp: selectMoveWithRandomness_def Let_def)
  next
    case True
    then have n: "0 < real (length ?cands)" by linarith
    have "snd pick * real (length ?cands) < real (length ?cands)" using assms(3) n by simp
    then have "\<lfloor>snd pick * real (length ?cands)\<rfloor> < int (length ?cands)" by linarith
    moreover have "0 \<le> \<lfloor>snd pick * real (length ?cands)\<rfloor>" using assms(2) by simp
    ultimately have "\<exists>m. at_index ?cands \<lfloor>snd pick * real (length ?cands)\<rfloor> = Some m"
      by (simp add: at_index_def)
    with True show ?thesis by (auto simp: selectMoveWithRandomness_def Let_def)
  qed
qed

lemma evaluateMoves_length:
  "evaluateMoves srt gm d aiColor startTime scored rnd clk = (res, r, c) \<Longrightarrow> length res = length scored"
  by (induction scored arbitrary: rnd clk res r c) (auto split: prod.splits if_splits)

lemma deepen_nonempty:
  "scored \<noteq> [] \<Longrightarrow> \<exists>res. deepen srt gm aiColor startTime depths scored rnd clk = Some res \<and> res \<noteq> []"
proof (induction depths arbitrary: scored rnd clk)
  case Nil then show ?case by simp
next
  case (Cons depth depths)
  show ?case
  proof (cases "clk 0 - startTime > timeLimit")
    case True with Cons.prems show ?thesis by simp
  next
    case False
    obtain s1 r1 c1 where e: "evaluateMoves srt gm (depth - 1) aiColor startTime scored rnd (rest clk) = (s1, r1, c1)"
      by (cases "evaluateMoves srt gm (depth - 1) aiColor startTime scored rnd (rest clk)") auto
    with evaluateMoves_length[OF e] Cons.prems have "s1 \<noteq> []" by auto
    then obtain best others where b: "sortByScore s1 = best # others"
      using sortByScore_nonempty[of s1] by (cases "sortByScore s1") auto
    show ?thesis
      using False e b Cons.IH[of "best # others" r1 c1] by simp
  qed
qed

lemma iterativeDeepening_Some:
  assumes "sortPermutes srt" "moves \<noteq> []" "0 \<le> snd pick" "snd pick < 1"
  shows "\<exists>m. iterativeDeepening srt p rnd clk pick gm moves aiColor = Some m"
proof -
  obtain sm r1 where s: "sortMoves srt rnd moves gm = (sm, r1)" by (cases "sortMoves srt rnd moves gm")
  with set_sortMoves[OF assms(1), of rnd moves gm] assms(2) have "sm \<noteq> []" by auto
  then have "map (\<lambda>m. (m, NegInfinity)) sm \<noteq> []" by simp
  from deepen_nonempty[OF this] obtain res where
    d: "deepen srt gm aiColor (clk 0) [1, 2, 3, 4, 5, 6] (map (\<lambda>m. (m, NegInfinity)) sm) r1 (rest clk) = Some res"
    and "res \<noteq> []" by blast
  from selectMoveWithRandomness_Some[OF \<open>res \<noteq> []\<close> assms(3,4)] s d show ?thesis
    by (simp add: iterativeDeepening_def Let_def)
qed

lemma worker_makeMove_none_iff:
  assumes "sortPermutes srt" "0 \<le> fst pick" "fst pick < 1" "0 \<le> snd pick" "snd pick < 1"
  shows "(worker_makeMove srt p rnd clk pick (toJSON gm) aiColor difficulty = None) =
         (currentTurn gm \<noteq> aiColor \<or> \<not> hasValidMove gm)"
proof (cases "currentTurn gm = aiColor \<and> getAllValidMovesForCurrentPlayer gm \<noteq> []")
  case False
  then show ?thesis using moves_nonempty_iff[of gm]
    by (auto simp: worker_makeMove_def GameModel_roundtrip Let_def)
next
  case True
  then have ne: "getAllValidMovesForCurrentPlayer gm \<noteq> []" by simp
  have "worker_makeMove srt p rnd clk pick (toJSON gm) aiColor difficulty \<noteq> None"
    using True chooseRandomMove_Some[OF ne assms(2,3)] chooseMediumMove_Some[OF ne assms(2,3), of gm]
      iterativeDeepening_Some[OF assms(1) ne assms(4,5), of p rnd clk gm aiColor]
    by (cases difficulty) (auto simp: worker_makeMove_def GameModel_roundtrip Let_def)
  with True moves_nonempty_iff[of gm] show ?thesis by simp
qed

end
